theory Spec2Isabelle
  imports Main "HOL-Library.Word"
begin

section \<open>Expert Tool ICS: the screen and mode state machine of \<open>expert_tool_ics.c\<close>\<close>

text \<open>
  The embedding follows \<open>src/src/expert_tool_ics.c\<close>. The C structure \<open>AppState\<close> is a
  record with the C field names; \<open>uint8_t\<close> and \<open>uint32_t\<close> are 8 and 32 bit words, so
  every \<open>++\<close>, \<open>--\<close>, \<open>*\<close> and narrowing cast wraps as in C, and the comparisons that C
  evaluates after integer promotion are written on \<open>unat\<close>. A \<open>FuriTimer*\<close> is an
  optional timer (\<open>None\<close> is the \<open>NULL\<close> pointer). Every C function that mutates the
  state through its pointer takes the state and returns the new one.

  The drawing functions and the view port are left out: they only read the state.
\<close>

type_synonym u8 = "8 word"
type_synonym u32 = "32 word"

subsection \<open>The board behind the HAL\<close>

text \<open>
  The HAL functions are not part of the program. Each call of the program is recorded
  in \<open>hal_log\<close>, in order, and its effect on the resource it addresses is kept in four
  fields: the configuration of pin PA7, the PWM unit (frequency and duty once started),
  the OTG 5V rail and the green LED. \<open>furi_hal_pwm_start\<close> hands the pin to the timer
  (\<open>PinPwmOut\<close>) and \<open>furi_hal_pwm_stop\<close> takes it back (\<open>PinReleased\<close>).
\<close>

datatype GpioMode = GpioModeInput | GpioModeOutputPushPull
datatype GpioPull = GpioPullNo
datatype GpioSpeed = GpioSpeedLow | GpioSpeedVeryHigh

datatype hal_call =
    GpioInit GpioMode GpioPull GpioSpeed
  | GpioWrite bool
  | PwmStart u32 nat
  | PwmStop
  | DelayMs nat
  | OtgEnable
  | OtgDisable

datatype pin_state = PinHiZ | PinPushPullLow | PinPwmOut | PinReleased

datatype pwm_unit = PwmIdle | PwmRunning u32 nat

subsection \<open>Timers\<close>

datatype FuriTimerType = FuriTimerTypeOnce | FuriTimerTypePeriodic

text \<open>
  A timer has the type given at allocation and, while it runs, the number of
  milliseconds the program passed to \<open>furi_ms_to_ticks\<close> when it started it.
\<close>

record FuriTimer =
  timer_type :: FuriTimerType
  timer_ms :: "u32 option"

definition furi_timer_alloc :: "FuriTimerType \<Rightarrow> FuriTimer" where
  "furi_timer_alloc ty = \<lparr>timer_type = ty, timer_ms = None\<rparr>"

definition furi_timer_start :: "FuriTimer \<Rightarrow> u32 \<Rightarrow> FuriTimer" where
  "furi_timer_start t ms = t\<lparr>timer_ms := Some ms\<rparr>"

definition furi_timer_stop :: "FuriTimer \<Rightarrow> FuriTimer" where
  "furi_timer_stop t = t\<lparr>timer_ms := None\<rparr>"

text \<open>A timer pointer is armed when it is not \<open>NULL\<close> and the timer runs.\<close>

definition timer_armed :: "FuriTimer option \<Rightarrow> bool" where
  "timer_armed p = (case p of None \<Rightarrow> False | Some t \<Rightarrow> timer_ms t \<noteq> None)"

text \<open>What is left of a timer after it fired: a one-shot timer no longer runs.\<close>

definition timer_fired :: "FuriTimer \<Rightarrow> FuriTimer" where
  "timer_fired t =
     (case timer_type t of
        FuriTimerTypeOnce \<Rightarrow> furi_timer_stop t
      | FuriTimerTypePeriodic \<Rightarrow> t)"

subsection \<open>Inverter profiles, modes, help texts, screens\<close>

datatype InverterId = InvEmbraco | InvSamsung

record Mode =
  name :: string
  freq_hz :: u32
  led_blink_hz :: u8
  default_secs :: u32

definition kModes :: "Mode list" where
  "kModes =
     [\<lparr>name = ''Stand by'', freq_hz = 0, led_blink_hz = 0, default_secs = 0\<rparr>,
      \<lparr>name = ''Low speed'', freq_hz = 55, led_blink_hz = 1, default_secs = 120\<rparr>,
      \<lparr>name = ''Mid speed'', freq_hz = 100, led_blink_hz = 2, default_secs = 60\<rparr>,
      \<lparr>name = ''Max speed'', freq_hz = 160, led_blink_hz = 4, default_secs = 30\<rparr>]"

definition MODE_COUNT :: nat where
  "MODE_COUNT = length kModes"

definition HELP_EMBRACO :: "string list" where
  "HELP_EMBRACO =
     [''Connect wires as follows:'',
      '''',
      ''2 (A7)    -> inverter +'',
      ''(usually RED wire)'',
      ''8 (GND)  -> inverter -'',
      ''(usually WHITE wire)'',
      '''',
      ''Note:'',
      ''This app provides'',
      ''3 test speeds:'',
      '''',
      ''Low speed:'',
      ''2000 RPM (VNE)'',
      ''1800 RPM (VEG, FMF)'',
      '''',
      ''Mid speed:'',
      ''3000 RPM'',
      ''(VNE, VEG, FMF)'',
      '''',
      ''Max speed:'',
      ''4500 RPM'',
      ''(VNE, VEG, FMF)'',
      '''',
      ''Embraco compressors'',
      ''support many speeds'',
      ''with 30 RPM steps.'',
      '''',
      ''----------------'',
      '''',
      ''App created by'',
      ''Adam Gray'',
      ''Founder of'',
      ''Expert Hub'',
      ''experthub.app'',
      '''',
      ''----------------'',
      '''',
      ''Press BACK to start.'']"

definition HELP_EMBRACO_COUNT :: nat where
  "HELP_EMBRACO_COUNT = length HELP_EMBRACO"

definition HELP_SAMSUNG :: "string list" where
  "HELP_SAMSUNG = [''In development'']"

definition HELP_SAMSUNG_COUNT :: nat where
  "HELP_SAMSUNG_COUNT = length HELP_SAMSUNG"

datatype ScreenId = ScreenSelectInverter | ScreenMenu | ScreenHelp | ScreenSettings

subsection \<open>Application state\<close>

text \<open>
  \<open>notif\<close> tells whether the notification handle is not \<open>NULL\<close>. The fields \<open>gui\<close>,
  \<open>vp\<close> and \<open>q\<close> of the C structure belong to drawing and to the input queue.
\<close>

record AppState =
  screen :: ScreenId
  inverter :: InverterId
  powered :: bool
  cursor :: u8
  first_visible :: u8
  active :: u8
  help_top_line :: u8
  limit_runtime :: bool
  arrow_captcha :: bool
  notif :: bool
  led_timer :: "FuriTimer option"
  led_on :: bool
  pwm_running :: bool
  hint_visible :: bool
  hint_timer :: "FuriTimer option"
  tick_timer :: "FuriTimer option"
  off_timer :: "FuriTimer option"
  remaining_ms :: u32
  timeout_expired :: bool

text \<open>The application state together with the board it drives.\<close>

record Board = AppState +
  hw_pin :: pin_state
  hw_pwm :: pwm_unit
  hw_otg :: bool
  hw_led :: bool
  hal_log :: "hal_call list"

subsection \<open>Safe GPIO helpers, PWM, 5V rail\<close>

definition pin_to_hiz :: "Board \<Rightarrow> Board" where
  "pin_to_hiz b =
     b\<lparr>hw_pin := PinHiZ,
       hal_log := hal_log b @ [GpioInit GpioModeInput GpioPullNo GpioSpeedLow]\<rparr>"

definition pin_to_pp_low :: "Board \<Rightarrow> Board" where
  "pin_to_pp_low b =
     b\<lparr>hw_pin := PinPushPullLow,
       hal_log := hal_log b @
         [GpioInit GpioModeOutputPushPull GpioPullNo GpioSpeedVeryHigh, GpioWrite False]\<rparr>"

text \<open>The pointer \<open>running\<close> is always \<open>&s->pwm_running\<close>.\<close>

definition pwm_hw_stop_safe :: "Board \<Rightarrow> Board" where
  "pwm_hw_stop_safe b =
     (if pwm_running b
      then b\<lparr>pwm_running := False, hw_pin := PinReleased, hw_pwm := PwmIdle,
             hal_log := hal_log b @ [PwmStop, DelayMs 1]\<rparr>
      else b)"

definition pwm_hw_start_safe :: "u32 \<Rightarrow> Board \<Rightarrow> Board" where
  "pwm_hw_start_safe f b =
     b\<lparr>pwm_running := True, hw_pin := PinPwmOut, hw_pwm := PwmRunning f 50,
       hal_log := hal_log b @ [PwmStart f 50]\<rparr>"

definition power_5v_set :: "bool \<Rightarrow> Board \<Rightarrow> Board" where
  "power_5v_set on b =
     (if on then b\<lparr>hw_otg := True, hal_log := hal_log b @ [OtgEnable]\<rparr>
      else b\<lparr>hw_otg := False, hal_log := hal_log b @ [OtgDisable]\<rparr>)"

definition inverter_power_5v :: "InverterId \<Rightarrow> bool \<Rightarrow> Board \<Rightarrow> Board" where
  "inverter_power_5v ivt on b =
     (if ivt = InvSamsung
      then (if on then b\<lparr>hw_otg := True, hal_log := hal_log b @ [OtgEnable]\<rparr>
            else b\<lparr>hw_otg := False, hal_log := hal_log b @ [OtgDisable]\<rparr>)
      else b)"

subsection \<open>LED helpers\<close>

definition led_set :: "bool \<Rightarrow> Board \<Rightarrow> Board" where
  "led_set on b = (if \<not> notif b then b else b\<lparr>hw_led := on\<rparr>)"

definition led_timer_cb :: "Board \<Rightarrow> Board" where
  "led_timer_cb b = led_set (\<not> led_on b) (b\<lparr>led_on := \<not> led_on b\<rparr>)"

text \<open>
  \<open>blink_hz * 2U\<close> is computed in 32 bits after the promotion of \<open>blink_hz\<close>; the
  division is the unsigned one.
\<close>

definition led_period_ms :: "u8 \<Rightarrow> u32" where
  "led_period_ms blink_hz =
     (let ms = 1000 div (ucast blink_hz * 2) in if ms = 0 then 1 else ms)"

definition led_apply :: "Board \<Rightarrow> u8 \<Rightarrow> Board" where
  "led_apply b blink_hz =
     (let b1 = led_set False (b\<lparr>led_timer := None, led_on := False\<rparr>)
      in if blink_hz = 0 then b1
         else b1\<lparr>led_timer :=
                  Some (furi_timer_start (furi_timer_alloc FuriTimerTypePeriodic)
                          (led_period_ms blink_hz))\<rparr>)"

subsection \<open>Countdown timers\<close>

definition tick_timer_cb :: "Board \<Rightarrow> Board" where
  "tick_timer_cb b =
     (if 1000 \<le> remaining_ms b then b\<lparr>remaining_ms := remaining_ms b - 1000\<rparr>
      else b\<lparr>remaining_ms := 0\<rparr>)"

definition off_timer_cb :: "Board \<Rightarrow> Board" where
  "off_timer_cb b = b\<lparr>remaining_ms := 0, timeout_expired := True\<rparr>"

definition stop_timers :: "Board \<Rightarrow> Board" where
  "stop_timers b =
     b\<lparr>tick_timer := map_option furi_timer_stop (tick_timer b),
       off_timer := map_option furi_timer_stop (off_timer b)\<rparr>"

text \<open>A timer pointer after the lazy allocation: the old timer, or a new one.\<close>

definition timer_or_alloc :: "FuriTimer option \<Rightarrow> FuriTimerType \<Rightarrow> FuriTimer" where
  "timer_or_alloc p ty = (case p of None \<Rightarrow> furi_timer_alloc ty | Some t \<Rightarrow> t)"

text \<open>
  \<open>kModes[s->active]\<close> is read without a range check; \<open>apply_mode\<close> is the only
  writer of \<open>active\<close> and stores indices below \<open>MODE_COUNT\<close> only.
\<close>

definition start_tick_timer_if_needed :: "Board \<Rightarrow> Board" where
  "start_tick_timer_if_needed b =
     (let b1 = (stop_timers b)\<lparr>remaining_ms := 0, timeout_expired := False\<rparr>
      in if \<not> powered b1 then b1
         else if \<not> limit_runtime b1 then b1
         else if active b1 = 0 then b1
         else let secs = default_secs (kModes ! unat (active b1))
              in if secs = 0 then b1
                 else let b2 = b1\<lparr>remaining_ms := secs * 1000\<rparr>
                      in b2\<lparr>tick_timer :=
                              Some (furi_timer_start
                                      (timer_or_alloc (tick_timer b2) FuriTimerTypePeriodic) 1000),
                            off_timer :=
                              Some (furi_timer_start
                                      (timer_or_alloc (off_timer b2) FuriTimerTypeOnce)
                                      (remaining_ms b2))\<rparr>)"

subsection \<open>Mode application\<close>

definition apply_mode :: "Board \<Rightarrow> u8 \<Rightarrow> Board" where
  "apply_mode b idx =
     (if MODE_COUNT \<le> unat idx then b
      else let b1 = b\<lparr>active := idx\<rparr>; m = kModes ! unat idx;
               b2 = (if freq_hz m = 0
                     then (stop_timers (pin_to_pp_low (pwm_hw_stop_safe b1)))
                            \<lparr>remaining_ms := 0, timeout_expired := False\<rparr>
                     else start_tick_timer_if_needed
                            (pwm_hw_start_safe (freq_hz m) (pwm_hw_stop_safe b1)))
           in led_apply b2 (led_blink_hz m))"

subsection \<open>Help layout\<close>

text \<open>
  \<open>CANVAS_H = 64\<close>; the pair returned is \<open>(max_lines, max_top_line)\<close>.
\<close>

definition CANVAS_H :: nat where
  "CANVAS_H = 64"

definition help_layout_params :: "u8 \<Rightarrow> u8 \<times> u8" where
  "help_layout_params total_lines =
     (let top = 10; line_h = 9;
          ml0 = (of_nat ((CANVAS_H - top) div line_h) :: u8);
          ml = (if ml0 < 1 then 1 else ml0);
          mtl = (if ml < total_lines then total_lines - ml else 0)
      in (ml, mtl))"

subsection \<open>Power transitions\<close>

definition enter_safe_menu :: "Board \<Rightarrow> Board" where
  "enter_safe_menu b =
     (let b1 = b\<lparr>powered := False, cursor := 0, first_visible := 0\<rparr>;
          b2 = power_5v_set False (pin_to_hiz (pwm_hw_stop_safe b1));
          b3 = stop_timers (led_apply b2 0)
      in b3\<lparr>remaining_ms := 0, timeout_expired := False\<rparr>)"

definition enter_powered_menu_standby :: "Board \<Rightarrow> Board" where
  "enter_powered_menu_standby b =
     (let b1 = b\<lparr>powered := True, cursor := 0, first_visible := 0\<rparr>
      in apply_mode (inverter_power_5v (inverter b1) True b1) 0)"

subsection \<open>Input events and the main loop\<close>

datatype InputKey =
  InputKeyUp | InputKeyDown | InputKeyRight | InputKeyLeft | InputKeyOk | InputKeyBack

datatype InputType =
  InputTypePress | InputTypeRelease | InputTypeShort | InputTypeLong | InputTypeRepeat

record InputEvent =
  ev_key :: InputKey
  ev_type :: InputType

text \<open>
  The block that shows the hint ribbon on a short BACK; the C code has it twice, in the
  inverter selection and in the menu.
\<close>

definition show_hint :: "Board \<Rightarrow> Board" where
  "show_hint b =
     (let b1 = b\<lparr>hint_visible := True\<rparr>
      in b1\<lparr>hint_timer :=
              Some (furi_timer_start (timer_or_alloc (hint_timer b1) FuriTimerTypeOnce) 1500)\<rparr>)"

definition hint_timer_cb :: "Board \<Rightarrow> Board" where
  "hint_timer_cb b = b\<lparr>hint_visible := False\<rparr>"

definition input_select_inverter :: "InputEvent \<Rightarrow> Board \<Rightarrow> Board" where
  "input_select_inverter ev b =
     (if ev_type ev = InputTypeShort \<or> ev_type ev = InputTypeRepeat then
        (if ev_key ev = InputKeyUp then b\<lparr>cursor := (if cursor b = 0 then 1 else 0)\<rparr>
         else if ev_key ev = InputKeyDown then b\<lparr>cursor := (if cursor b = 1 then 0 else 1)\<rparr>
         else if ev_key ev = InputKeyOk then
           (enter_safe_menu
              (b\<lparr>inverter := (if cursor b = 0 then InvEmbraco else InvSamsung)\<rparr>))
             \<lparr>screen := ScreenMenu\<rparr>
         else if ev_key ev = InputKeyBack then show_hint b
         else b)
      else b)"

text \<open>
  The two blocking dialogs return what the user chose; \<open>confirm\<close> is that answer for
  the dialog an event opens, if it opens one.
\<close>

definition MAX_ROWS :: nat where
  "MAX_ROWS = 4"

definition menu_row_total :: "bool \<Rightarrow> u8" where
  "menu_row_total pw = (if pw then of_nat (MODE_COUNT + 3) else 3)"

definition input_menu :: "bool \<Rightarrow> InputEvent \<Rightarrow> Board \<Rightarrow> Board" where
  "input_menu confirm ev b =
     (let pw = powered b; row_total = menu_row_total pw in
      if ev_type ev = InputTypeShort then
        (if ev_key ev = InputKeyUp then
           (if cursor b = 0
            then b\<lparr>cursor := row_total - 1,
                   first_visible :=
                     (if MAX_ROWS < unat row_total then row_total - of_nat MAX_ROWS else 0)\<rparr>
            else let b1 = b\<lparr>cursor := cursor b - 1\<rparr>
                 in if cursor b1 < first_visible b1 then b1\<lparr>first_visible := cursor b1\<rparr>
                    else b1)
         else if ev_key ev = InputKeyDown then
           (if cursor b = row_total - 1
            then b\<lparr>cursor := 0, first_visible := 0\<rparr>
            else let b1 = b\<lparr>cursor := cursor b + 1\<rparr>
                 in if unat (first_visible b1) + MAX_ROWS \<le> unat (cursor b1)
                    then b1\<lparr>first_visible := cursor b1 - of_nat (MAX_ROWS - 1)\<rparr>
                    else b1)
         else if ev_key ev = InputKeyOk then
           (if pw then
              (if unat (cursor b) < MODE_COUNT then apply_mode b (cursor b)
               else if unat (cursor b) = MODE_COUNT then enter_safe_menu b
               else if unat (cursor b) = MODE_COUNT + 1
               then b\<lparr>screen := ScreenSettings, cursor := 0, first_visible := 0\<rparr>
               else (enter_safe_menu b)\<lparr>screen := ScreenHelp, help_top_line := 0\<rparr>)
            else
              (if cursor b = 0
               then (if confirm then enter_powered_menu_standby b else b)
               else if cursor b = 1
               then b\<lparr>screen := ScreenSettings, cursor := 0, first_visible := 0\<rparr>
               else b\<lparr>screen := ScreenHelp, help_top_line := 0\<rparr>))
         else if ev_key ev = InputKeyBack then show_hint b
         else b)
      else b)"

definition help_total_lines :: "InverterId \<Rightarrow> u8" where
  "help_total_lines ivt =
     (if ivt = InvEmbraco then of_nat HELP_EMBRACO_COUNT else of_nat HELP_SAMSUNG_COUNT)"

definition input_help :: "InputEvent \<Rightarrow> Board \<Rightarrow> Board" where
  "input_help ev b =
     (if ev_type ev = InputTypeShort \<or> ev_type ev = InputTypeRepeat then
        (let max_top_line = snd (help_layout_params (help_total_lines (inverter b))) in
         if ev_key ev = InputKeyUp then
           (if 0 < help_top_line b then b\<lparr>help_top_line := help_top_line b - 1\<rparr> else b)
         else if ev_key ev = InputKeyDown then
           (if help_top_line b < max_top_line then b\<lparr>help_top_line := help_top_line b + 1\<rparr>
            else b)
         else if ev_key ev = InputKeyBack then b\<lparr>screen := ScreenMenu\<rparr>
         else b)
      else b)"

definition SETTINGS_ROW_TOTAL :: u8 where
  "SETTINGS_ROW_TOTAL = 5"

definition MAX_ROWS_S :: nat where
  "MAX_ROWS_S = 4"

definition input_settings :: "bool \<Rightarrow> InputEvent \<Rightarrow> Board \<Rightarrow> Board" where
  "input_settings confirm ev b =
     (if ev_type ev = InputTypeShort then
        (if ev_key ev = InputKeyUp then
           (if cursor b = 0
            then b\<lparr>cursor := SETTINGS_ROW_TOTAL - 1,
                   first_visible :=
                     (if MAX_ROWS_S < unat SETTINGS_ROW_TOTAL
                      then SETTINGS_ROW_TOTAL - of_nat MAX_ROWS_S else 0)\<rparr>
            else let b1 = b\<lparr>cursor := cursor b - 1\<rparr>;
                     b2 = (if cursor b1 = 2 then b1\<lparr>cursor := 1\<rparr> else b1)
                 in if cursor b2 < first_visible b2 then b2\<lparr>first_visible := cursor b2\<rparr>
                    else b2)
         else if ev_key ev = InputKeyDown then
           (if cursor b = SETTINGS_ROW_TOTAL - 1
            then b\<lparr>cursor := 0, first_visible := 0\<rparr>
            else let b1 = b\<lparr>cursor := cursor b + 1\<rparr>;
                     b2 = (if cursor b1 = 2 then b1\<lparr>cursor := 3\<rparr> else b1)
                 in if unat (first_visible b2) + MAX_ROWS_S \<le> unat (cursor b2)
                    then b2\<lparr>first_visible := cursor b2 - of_nat (MAX_ROWS_S - 1)\<rparr>
                    else b2)
         else if ev_key ev = InputKeyOk then
           (if cursor b = 0 then
              (if limit_runtime b
               then (if confirm
                     then (stop_timers (b\<lparr>limit_runtime := False\<rparr>))\<lparr>remaining_ms := 0\<rparr>
                     else b)
               else start_tick_timer_if_needed (b\<lparr>limit_runtime := True\<rparr>))
            else if cursor b = 1 then b\<lparr>arrow_captcha := \<not> arrow_captcha b\<rparr>
            else if cursor b = 3 then
              (if inverter b \<noteq> InvEmbraco
               then (enter_safe_menu (b\<lparr>inverter := InvEmbraco\<rparr>))\<lparr>screen := ScreenMenu\<rparr>
               else b)
            else if cursor b = 4 then
              (if inverter b \<noteq> InvSamsung
               then (enter_safe_menu (b\<lparr>inverter := InvSamsung\<rparr>))\<lparr>screen := ScreenMenu\<rparr>
               else b)
            else b)
         else if ev_key ev = InputKeyBack
         then b\<lparr>screen := ScreenMenu, cursor := 0, first_visible := 0\<rparr>
         else b)
      else b)"

text \<open>The \<open>switch\<close> of the main loop on the current screen.\<close>

definition process_event :: "bool \<Rightarrow> InputEvent \<Rightarrow> Board \<Rightarrow> Board" where
  "process_event confirm ev b =
     (case screen b of
        ScreenSelectInverter \<Rightarrow> input_select_inverter ev b
      | ScreenMenu \<Rightarrow> input_menu confirm ev b
      | ScreenHelp \<Rightarrow> input_help ev b
      | ScreenSettings \<Rightarrow> input_settings confirm ev b)"

text \<open>The head of the loop body: a pending expiry is consumed.\<close>

definition handle_timeout :: "Board \<Rightarrow> Board" where
  "handle_timeout b =
     (if timeout_expired b
      then enter_powered_menu_standby (b\<lparr>timeout_expired := False\<rparr>)
      else b)"

text \<open>
  One pass of the loop body with the event the queue delivered, if any; the flag
  returned is \<open>exit_app\<close>.
\<close>

definition loop_body :: "bool \<Rightarrow> InputEvent option \<Rightarrow> Board \<Rightarrow> Board \<times> bool" where
  "loop_body confirm evo b =
     (let b1 = handle_timeout b in
      case evo of
        None \<Rightarrow> (b1, False)
      | Some ev \<Rightarrow>
          if ev_type ev = InputTypeLong \<and> ev_key ev = InputKeyBack then (b1, True)
          else (process_event confirm ev b1, False))"

text \<open>
  The state when the loop is entered: the initialiser of \<open>s\<close>, then \<open>pin_to_hiz\<close>,
  \<open>power_5v_set(false)\<close> and \<open>led_apply(&s, 0)\<close>. The notification handle is the one
  \<open>furi_record_open\<close> returned; the PWM unit is idle when the application starts.
\<close>

definition initial_fields :: Board where
  "initial_fields =
     \<lparr>screen = ScreenSelectInverter, inverter = InvEmbraco, powered = False,
      cursor = 0, first_visible = 0, active = 0, help_top_line = 0,
      limit_runtime = True, arrow_captcha = True, notif = True,
      led_timer = None, led_on = False, pwm_running = False,
      hint_visible = False, hint_timer = None, tick_timer = None, off_timer = None,
      remaining_ms = 0, timeout_expired = False,
      hw_pin = PinReleased, hw_pwm = PwmIdle, hw_otg = False, hw_led = False, hal_log = []\<rparr>"

definition init_state :: Board where
  "init_state = led_apply (power_5v_set False (pin_to_hiz initial_fields)) 0"

subsection \<open>Interleaving of the loop with the timer callbacks\<close>

text \<open>
  The timer callbacks run outside the loop. A run is a sequence of steps: the loop
  consumes the expiry flag (\<open>Poll\<close>), the loop processes one input event other than a
  long BACK (\<open>Input\<close>, with the answer of the dialog), or one of the four timers fires.
  A timer fires only while it is armed, and its callback then runs as a whole.
\<close>

datatype step = Poll | Input bool InputEvent | TickFires | OffFires | LedFires | HintFires

definition fire_tick :: "Board \<Rightarrow> Board" where
  "fire_tick b =
     (case tick_timer b of
        None \<Rightarrow> b
      | Some t \<Rightarrow> if timer_ms t = None then b
                  else tick_timer_cb (b\<lparr>tick_timer := Some (timer_fired t)\<rparr>))"

definition fire_off :: "Board \<Rightarrow> Board" where
  "fire_off b =
     (case off_timer b of
        None \<Rightarrow> b
      | Some t \<Rightarrow> if timer_ms t = None then b
                  else off_timer_cb (b\<lparr>off_timer := Some (timer_fired t)\<rparr>))"

definition fire_led :: "Board \<Rightarrow> Board" where
  "fire_led b =
     (case led_timer b of
        None \<Rightarrow> b
      | Some t \<Rightarrow> if timer_ms t = None then b
                  else led_timer_cb (b\<lparr>led_timer := Some (timer_fired t)\<rparr>))"

definition fire_hint :: "Board \<Rightarrow> Board" where
  "fire_hint b =
     (case hint_timer b of
        None \<Rightarrow> b
      | Some t \<Rightarrow> if timer_ms t = None then b
                  else hint_timer_cb (b\<lparr>hint_timer := Some (timer_fired t)\<rparr>))"

fun do_step :: "step \<Rightarrow> Board \<Rightarrow> Board" where
  "do_step Poll b = handle_timeout b"
| "do_step (Input confirm ev) b = process_event confirm ev b"
| "do_step TickFires b = fire_tick b"
| "do_step OffFires b = fire_off b"
| "do_step LedFires b = fire_led b"
| "do_step HintFires b = fire_hint b"

fun run :: "step list \<Rightarrow> Board \<Rightarrow> Board" where
  "run [] b = b"
| "run (st # sts) b = run sts (do_step st b)"

abbreviation short :: "InputKey \<Rightarrow> InputEvent" where
  "short k \<equiv> \<lparr>ev_key = k, ev_type = InputTypeShort\<rparr>"

subsection \<open>Predicates on states\<close>

text \<open>The gate of \<open>start_tick_timer_if_needed\<close>: the four tests that precede the arming.\<close>

definition countdown_gate :: "Board \<Rightarrow> bool" where
  "countdown_gate b =
     (powered b \<and> limit_runtime b \<and> active b \<noteq> 0 \<and>
      default_secs (kModes ! unat (active b)) \<noteq> 0)"

text \<open>The type of a timer pointer (any type for \<open>NULL\<close>) and the delay it runs with.\<close>

definition timer_typed :: "FuriTimer option \<Rightarrow> FuriTimerType \<Rightarrow> bool" where
  "timer_typed p ty = (case p of None \<Rightarrow> True | Some t \<Rightarrow> timer_type t = ty)"

definition timer_delay :: "FuriTimer option \<Rightarrow> u32 option" where
  "timer_delay p = (case p of None \<Rightarrow> None | Some t \<Rightarrow> timer_ms t)"

text \<open>A timer pointer after \<open>furi_timer_stop\<close>, and after a lazy allocation and a start.\<close>

definition stopped :: "FuriTimer option \<Rightarrow> FuriTimer option" where
  "stopped p = map_option furi_timer_stop p"

definition restarted :: "FuriTimer option \<Rightarrow> FuriTimerType \<Rightarrow> u32 \<Rightarrow> FuriTimer option" where
  "restarted p ty ms = Some (furi_timer_start (timer_or_alloc (stopped p) ty) ms)"

text \<open>
  The flag \<open>pwm_running\<close> tells what the PWM unit does, and the LED can only be lit
  through the notification handle.
\<close>

definition hw_tracked :: "Board \<Rightarrow> bool" where
  "hw_tracked b = ((pwm_running b \<longleftrightarrow> hw_pwm b \<noteq> PwmIdle) \<and> (notif b \<or> \<not> hw_led b))"

definition rail_inv :: "Board \<Rightarrow> bool" where
  "rail_inv b = (powered b \<or> \<not> hw_otg b)"

definition active_ok :: "Board \<Rightarrow> bool" where
  "active_ok b = (unat (active b) < MODE_COUNT)"

text \<open>
  The rows of a screen the cursor may select, top to bottom: two inverters; the rows of
  the menu (three when safe, \<open>MODE_COUNT + 3\<close> when powered); the settings without the
  header in row 2. The help screen has no rows.
\<close>

definition selectable_rows :: "ScreenId \<Rightarrow> bool \<Rightarrow> u8 list" where
  "selectable_rows scr pw =
     (case scr of
        ScreenSelectInverter \<Rightarrow> [0, 1]
      | ScreenMenu \<Rightarrow> map of_nat [0 ..< unat (menu_row_total pw)]
      | ScreenHelp \<Rightarrow> []
      | ScreenSettings \<Rightarrow> [0, 1, 3, 4])"

text \<open>
  On the help screen the cursor keeps the menu row it came from, which is a row of the
  safe menu.
\<close>

definition cursor_ok :: "Board \<Rightarrow> bool" where
  "cursor_ok b =
     (if screen b = ScreenHelp then cursor b \<in> {0, 1, 2}
      else cursor b \<in> set (selectable_rows (screen b) (powered b)))"

definition timers_inv :: "Board \<Rightarrow> bool" where
  "timers_inv b =
     (timer_typed (tick_timer b) FuriTimerTypePeriodic \<and>
      timer_typed (off_timer b) FuriTimerTypeOnce \<and>
      timer_delay (tick_timer b) = (if countdown_gate b then Some 1000 else None) \<and>
      timer_delay (off_timer b) =
        (if countdown_gate b \<and> \<not> timeout_expired b
         then Some (default_secs (kModes ! unat (active b)) * 1000) else None) \<and>
      (timeout_expired b \<longrightarrow> powered b))"

definition help_max_top_line :: "InverterId \<Rightarrow> u8" where
  "help_max_top_line ivt = snd (help_layout_params (help_total_lines ivt))"

definition help_inv :: "Board \<Rightarrow> bool" where
  "help_inv b = (screen b = ScreenHelp \<longrightarrow> help_top_line b \<le> help_max_top_line (inverter b))"

definition app_inv :: "Board \<Rightarrow> bool" where
  "app_inv b =
     (hw_tracked b \<and> rail_inv b \<and> active_ok b \<and> cursor_ok b \<and> timers_inv b \<and> help_inv b)"

subsection \<open>Runs used as examples\<close>

text \<open>
  Each pass of the loop is a \<open>Poll\<close> followed by the event it processes. Embraco is
  chosen, power on is confirmed, the cursor goes down to ``Low speed'' and OK starts it:
  55 Hz, countdown of 120 s armed.
\<close>

definition run_low_speed :: "step list" where
  "run_low_speed =
     [Poll, Input False (short InputKeyOk),
      Poll, Input True (short InputKeyOk),
      Poll, Input False (short InputKeyDown),
      Poll, Input False (short InputKeyOk)]"

text \<open>
  The loop looks at the flag and waits for the next event; meanwhile the one-shot timer
  fires.
\<close>

definition run_expired :: "step list" where
  "run_expired = run_low_speed @ [Poll, OffFires]"

text \<open>An OK on the same row ends that wait, before the loop looks at the flag again.\<close>

definition run_expired_ok :: "step list" where
  "run_expired_ok = run_expired @ [Input False (short InputKeyOk)]"

text \<open>Samsung is chosen on the first screen; the safe menu is shown.\<close>

definition run_samsung_menu :: "step list" where
  "run_samsung_menu =
     [Poll, Input False (short InputKeyDown), Poll, Input False (short InputKeyOk)]"

text \<open>Samsung is chosen, power on is confirmed and ``Low speed'' is started.\<close>

definition run_samsung_low_speed :: "step list" where
  "run_samsung_low_speed =
     run_samsung_menu @
     [Poll, Input True (short InputKeyOk),
      Poll, Input False (short InputKeyDown),
      Poll, Input False (short InputKeyOk)]"

text \<open>
  From the powered menu with ``Low speed'' running, the cursor goes up to ``Stand by'',
  wraps to ``Help'' and goes up to ``Settings''; OK opens the settings with the cursor on
  ``Limit run time''.
\<close>

definition run_settings_armed :: "step list" where
  "run_settings_armed =
     run_low_speed @
     [Poll, Input False (short InputKeyUp),
      Poll, Input False (short InputKeyUp),
      Poll, Input False (short InputKeyUp),
      Poll, Input False (short InputKeyOk)]"

text \<open>The help of Embraco is opened from the safe menu and scrolled down one line.\<close>

definition run_help_scrolled :: "step list" where
  "run_help_scrolled =
     [Poll, Input False (short InputKeyOk),
      Poll, Input False (short InputKeyDown),
      Poll, Input False (short InputKeyDown),
      Poll, Input False (short InputKeyOk),
      Poll, Input False (short InputKeyDown)]"

text \<open>
  Then BACK returns to the menu, the cursor goes up to ``Settings'', OK opens them, UP
  wraps to the row ``Samsung'' and OK selects it.
\<close>

definition run_help_then_samsung :: "step list" where
  "run_help_then_samsung =
     run_help_scrolled @
     [Poll, Input False (short InputKeyBack),
      Poll, Input False (short InputKeyUp),
      Poll, Input False (short InputKeyOk),
      Poll, Input False (short InputKeyUp),
      Poll, Input False (short InputKeyOk)]"

text \<open>
  Embraco is chosen and power on is confirmed; the cursor is on ``Low speed'', mode 0 is
  active and no countdown timer has been allocated yet.
\<close>

definition run_standby :: "step list" where
  "run_standby =
     [Poll, Input False (short InputKeyOk),
      Poll, Input True (short InputKeyOk),
      Poll, Input False (short InputKeyDown)]"

text \<open>
  In the settings opened while ``Low speed'' runs, the limit is switched off (confirmed):
  both countdown timers are stopped.
\<close>

definition run_settings_limit_off :: "step list" where
  "run_settings_limit_off = run_settings_armed @ [Poll, Input True (short InputKeyOk)]"

section \<open>Auxiliary facts\<close>

subsection \<open>The tables\<close>

lemma MODE_COUNT_4: "MODE_COUNT = 4"
  by (simp add: MODE_COUNT_def kModes_def)

lemma mode_table:
  "kModes ! 0 = \<lparr>name = ''Stand by'', freq_hz = 0, led_blink_hz = 0, default_secs = 0\<rparr>"
  "kModes ! Suc 0 = \<lparr>name = ''Low speed'', freq_hz = 55, led_blink_hz = 1, default_secs = 120\<rparr>"
  "kModes ! 2 = \<lparr>name = ''Mid speed'', freq_hz = 100, led_blink_hz = 2, default_secs = 60\<rparr>"
  "kModes ! 3 = \<lparr>name = ''Max speed'', freq_hz = 160, led_blink_hz = 4, default_secs = 30\<rparr>"
  by (simp_all add: kModes_def numeral_2_eq_2 numeral_3_eq_3)

lemma mode_cases: "unat (i::u8) < MODE_COUNT \<Longrightarrow> i = 0 \<or> i = 1 \<or> i = 2 \<or> i = 3"
  unfolding MODE_COUNT_4 word_unat_eq_iff [of i] by simp arith

lemma help_counts: "HELP_EMBRACO_COUNT = 38" "HELP_SAMSUNG_COUNT = 1"
  by (simp_all add: HELP_EMBRACO_COUNT_def HELP_EMBRACO_def HELP_SAMSUNG_COUNT_def HELP_SAMSUNG_def)

lemma help_layout_values:
  "help_layout_params (help_total_lines InvEmbraco) = (6, 32)"
  "help_layout_params (help_total_lines InvSamsung) = (6, 0)"
  by (simp_all add: help_layout_params_def help_total_lines_def help_counts CANVAS_H_def)

lemma help_max_top_line_values:
  "help_max_top_line InvEmbraco = 32" "help_max_top_line InvSamsung = 0"
  by (simp_all add: help_max_top_line_def help_layout_values)

lemma rows_menu:
  "selectable_rows ScreenMenu True = [0, 1, 2, 3, 4, 5, 6]"
  "selectable_rows ScreenMenu False = [0, 1, 2]"
  by (simp_all add: selectable_rows_def menu_row_total_def MODE_COUNT_4 upt_rec)

lemma rows_other:
  "selectable_rows ScreenSelectInverter pw = [0, 1]"
  "selectable_rows ScreenSettings pw = [0, 1, 3, 4]"
  "selectable_rows ScreenHelp pw = []"
  by (simp_all add: selectable_rows_def)

subsection \<open>Timers\<close>

lemma timer_delay_simps [simp]:
  "timer_delay (stopped p) = None"
  "timer_delay (restarted p ty ms) = Some ms"
  "timer_delay None = None"
  by (simp_all add: timer_delay_def stopped_def restarted_def furi_timer_start_def
      furi_timer_stop_def split: option.splits)

lemma timer_typed_simps [simp]:
  "timer_typed (stopped p) ty = timer_typed p ty"
  "timer_typed p ty \<Longrightarrow> timer_typed (restarted p ty ms) ty"
  "timer_typed None ty"
  by (auto simp: timer_typed_def stopped_def restarted_def furi_timer_start_def
      furi_timer_stop_def timer_or_alloc_def furi_timer_alloc_def split: option.splits)

lemma timer_armed_delay: "timer_armed p = (timer_delay p \<noteq> None)"
  by (simp add: timer_armed_def timer_delay_def split: option.splits)

lemma restarted_typed:
  "timer_typed p ty \<Longrightarrow> restarted p ty ms = Some \<lparr>timer_type = ty, timer_ms = Some ms\<rparr>"
  by (cases p)
     (simp_all add: timer_typed_def restarted_def stopped_def timer_or_alloc_def
        furi_timer_alloc_def furi_timer_start_def furi_timer_stop_def)

subsection \<open>The operations as one update of the state\<close>

lemmas prim_defs = pin_to_hiz_def pin_to_pp_low_def pwm_hw_stop_safe_def pwm_hw_start_safe_def
  power_5v_set_def inverter_power_5v_def led_set_def led_timer_cb_def led_apply_def
  tick_timer_cb_def off_timer_cb_def stop_timers_def show_hint_def hint_timer_cb_def

lemma start_tick_nf:
  "start_tick_timer_if_needed b =
     b\<lparr>tick_timer :=
         (if countdown_gate b then restarted (tick_timer b) FuriTimerTypePeriodic 1000
          else stopped (tick_timer b)),
       off_timer :=
         (if countdown_gate b
          then restarted (off_timer b) FuriTimerTypeOnce
                 (default_secs (kModes ! unat (active b)) * 1000)
          else stopped (off_timer b)),
       remaining_ms :=
         (if countdown_gate b then default_secs (kModes ! unat (active b)) * 1000 else 0),
       timeout_expired := False\<rparr>"
  by (simp add: start_tick_timer_if_needed_def stop_timers_def countdown_gate_def Let_def
      stopped_def restarted_def)

lemma apply_mode_nf:
  "unat idx < MODE_COUNT \<Longrightarrow>
   apply_mode b idx =
     b\<lparr>active := idx,
       pwm_running := (freq_hz (kModes ! unat idx) \<noteq> 0),
       hw_pin := (if freq_hz (kModes ! unat idx) = 0 then PinPushPullLow else PinPwmOut),
       hw_pwm :=
         (if freq_hz (kModes ! unat idx) = 0
          then (if pwm_running b then PwmIdle else hw_pwm b)
          else PwmRunning (freq_hz (kModes ! unat idx)) 50),
       hal_log :=
         hal_log b @ (if pwm_running b then [PwmStop, DelayMs 1] else []) @
         (if freq_hz (kModes ! unat idx) = 0
          then [GpioInit GpioModeOutputPushPull GpioPullNo GpioSpeedVeryHigh, GpioWrite False]
          else [PwmStart (freq_hz (kModes ! unat idx)) 50]),
       tick_timer :=
         (if freq_hz (kModes ! unat idx) \<noteq> 0 \<and> countdown_gate (b\<lparr>active := idx\<rparr>)
          then restarted (tick_timer b) FuriTimerTypePeriodic 1000
          else stopped (tick_timer b)),
       off_timer :=
         (if freq_hz (kModes ! unat idx) \<noteq> 0 \<and> countdown_gate (b\<lparr>active := idx\<rparr>)
          then restarted (off_timer b) FuriTimerTypeOnce
                 (default_secs (kModes ! unat idx) * 1000)
          else stopped (off_timer b)),
       remaining_ms :=
         (if freq_hz (kModes ! unat idx) \<noteq> 0 \<and> countdown_gate (b\<lparr>active := idx\<rparr>)
          then default_secs (kModes ! unat idx) * 1000 else 0),
       timeout_expired := False,
       led_timer :=
         (if led_blink_hz (kModes ! unat idx) = 0 then None
          else Some (furi_timer_start (furi_timer_alloc FuriTimerTypePeriodic)
                       (led_period_ms (led_blink_hz (kModes ! unat idx))))),
       led_on := False,
       hw_led := (if notif b then False else hw_led b)\<rparr>"
  by (simp add: apply_mode_def start_tick_nf prim_defs Let_def countdown_gate_def stopped_def)

lemma enter_safe_menu_nf:
  "enter_safe_menu b =
     b\<lparr>powered := False, cursor := 0, first_visible := 0,
       pwm_running := False,
       hw_pin := PinHiZ,
       hw_pwm := (if pwm_running b then PwmIdle else hw_pwm b),
       hw_otg := False,
       hal_log :=
         hal_log b @ (if pwm_running b then [PwmStop, DelayMs 1] else []) @
         [GpioInit GpioModeInput GpioPullNo GpioSpeedLow, OtgDisable],
       led_timer := None, led_on := False,
       hw_led := (if notif b then False else hw_led b),
       tick_timer := stopped (tick_timer b),
       off_timer := stopped (off_timer b),
       remaining_ms := 0, timeout_expired := False\<rparr>"
  by (simp add: enter_safe_menu_def prim_defs Let_def stopped_def)

lemma enter_powered_nf:
  "enter_powered_menu_standby b =
     b\<lparr>powered := True, cursor := 0, first_visible := 0, active := 0,
       pwm_running := False,
       hw_pin := PinPushPullLow,
       hw_pwm := (if pwm_running b then PwmIdle else hw_pwm b),
       hw_otg := (if inverter b = InvSamsung then True else hw_otg b),
       hal_log :=
         hal_log b @ (if inverter b = InvSamsung then [OtgEnable] else []) @
         (if pwm_running b then [PwmStop, DelayMs 1] else []) @
         [GpioInit GpioModeOutputPushPull GpioPullNo GpioSpeedVeryHigh, GpioWrite False],
       led_timer := None, led_on := False,
       hw_led := (if notif b then False else hw_led b),
       tick_timer := stopped (tick_timer b),
       off_timer := stopped (off_timer b),
       remaining_ms := 0, timeout_expired := False\<rparr>"
  by (simp add: enter_powered_menu_standby_def apply_mode_nf MODE_COUNT_4 mode_table
      inverter_power_5v_def Let_def)

lemmas nf = start_tick_nf apply_mode_nf enter_safe_menu_nf enter_powered_nf

lemmas input_defs = process_event_def input_select_inverter_def input_menu_def input_help_def
  input_settings_def menu_row_total_def MAX_ROWS_def MAX_ROWS_S_def SETTINGS_ROW_TOTAL_def

lemmas fire_defs = fire_tick_def fire_off_def fire_led_def fire_hint_def
  tick_timer_cb_def off_timer_cb_def led_timer_cb_def led_set_def hint_timer_cb_def

text \<open>Everything needed to run the model on a given state, and from the initial one.\<close>

lemmas step_defs = prim_defs start_tick_timer_if_needed_def apply_mode_def enter_safe_menu_def
  enter_powered_menu_standby_def handle_timeout_def input_defs fire_defs
  timer_or_alloc_def furi_timer_alloc_def furi_timer_start_def furi_timer_stop_def
  timer_armed_def timer_fired_def MODE_COUNT_4 kModes_def Let_def led_period_ms_def
  help_layout_values

lemmas eval_defs = step_defs init_state_def initial_fields_def

lemma split_event:
  assumes "\<And>k t. ev = \<lparr>ev_key = k, ev_type = t\<rparr> \<Longrightarrow> P"
  shows P
  using assms by (cases ev) simp

subsection \<open>The flag \<open>pwm_running\<close> and the LED\<close>

lemma hw_tracked_input: "hw_tracked b \<Longrightarrow> hw_tracked (process_event c ev b)"
proof -
  assume a: "hw_tracked b"
  obtain k t where ev: "ev = \<lparr>ev_key = k, ev_type = t\<rparr>" by (rule split_event)
  show ?thesis using a unfolding ev
    by (cases k; cases t; cases "screen b")
       (auto simp: hw_tracked_def input_defs nf show_hint_def stop_timers_def
          Let_def MODE_COUNT_4)
qed

lemma hw_tracked_step: "hw_tracked b \<Longrightarrow> hw_tracked (do_step st b)"
proof (cases st)
  case (Input c ev)
  assume "hw_tracked b"
  then show ?thesis unfolding Input by (simp add: hw_tracked_input)
qed (auto simp: hw_tracked_def nf handle_timeout_def fire_defs split: option.splits)

subsection \<open>The 5V rail is off while the menu is safe\<close>

lemma rail_inv_input: "rail_inv b \<Longrightarrow> rail_inv (process_event c ev b)"
proof -
  assume a: "rail_inv b"
  obtain k t where ev: "ev = \<lparr>ev_key = k, ev_type = t\<rparr>" by (rule split_event)
  show ?thesis using a unfolding ev
    by (cases k; cases t; cases "screen b")
       (auto simp: rail_inv_def input_defs nf show_hint_def stop_timers_def
          Let_def MODE_COUNT_4)
qed

lemma rail_inv_step: "rail_inv b \<Longrightarrow> rail_inv (do_step st b)"
proof (cases st)
  case (Input c ev)
  assume "rail_inv b"
  then show ?thesis unfolding Input by (simp add: rail_inv_input)
qed (auto simp: rail_inv_def nf handle_timeout_def fire_defs split: option.splits)

subsection \<open>The active mode is an index of the table\<close>

lemma active_ok_input: "active_ok b \<Longrightarrow> active_ok (process_event c ev b)"
proof -
  assume a: "active_ok b"
  obtain k t where ev: "ev = \<lparr>ev_key = k, ev_type = t\<rparr>" by (rule split_event)
  show ?thesis using a unfolding ev
    by (cases k; cases t; cases "screen b")
       (auto simp: active_ok_def input_defs nf show_hint_def stop_timers_def
          Let_def MODE_COUNT_4)
qed

lemma active_ok_step: "active_ok b \<Longrightarrow> active_ok (do_step st b)"
proof (cases st)
  case (Input c ev)
  assume "active_ok b"
  then show ?thesis unfolding Input by (simp add: active_ok_input)
qed (auto simp: active_ok_def nf handle_timeout_def fire_defs MODE_COUNT_4 split: option.splits)

subsection \<open>The help offset while the help is shown\<close>

lemma help_dec: "0 < x \<Longrightarrow> x \<le> m \<Longrightarrow> x - 1 \<le> (m::u8)"
  by uint_arith

lemma help_inv_input: "help_inv b \<Longrightarrow> help_inv (process_event c ev b)"
proof -
  assume a: "help_inv b"
  obtain k t where ev: "ev = \<lparr>ev_key = k, ev_type = t\<rparr>" by (rule split_event)
  show ?thesis using a unfolding ev
    by (cases k; cases t; cases "screen b")
       (auto simp: help_inv_def input_defs nf show_hint_def stop_timers_def
          Let_def MODE_COUNT_4 help_max_top_line_def help_dec inc_le)
qed

lemma help_inv_step: "help_inv b \<Longrightarrow> help_inv (do_step st b)"
proof (cases st)
  case (Input c ev)
  assume "help_inv b"
  then show ?thesis unfolding Input by (simp add: help_inv_input)
qed (auto simp: help_inv_def nf handle_timeout_def fire_defs split: option.splits)

subsection \<open>The cursor is on a row of the screen\<close>

lemma cursor_ok_input: "cursor_ok b \<Longrightarrow> cursor_ok (process_event c ev b)"
proof -
  assume a: "cursor_ok b"
  obtain k t where ev: "ev = \<lparr>ev_key = k, ev_type = t\<rparr>" by (rule split_event)
  show ?thesis using a unfolding ev
    by (cases k; cases t; cases "screen b"; cases "powered b")
       (auto simp: cursor_ok_def rows_menu rows_other input_defs nf show_hint_def
          stop_timers_def Let_def MODE_COUNT_4)
qed

lemma cursor_ok_step: "cursor_ok b \<Longrightarrow> cursor_ok (do_step st b)"
proof (cases st)
  case (Input c ev)
  assume "cursor_ok b"
  then show ?thesis unfolding Input by (simp add: cursor_ok_input)
next
  case Poll
  assume "cursor_ok b"
  then show ?thesis unfolding Poll
    by (cases "screen b") (auto simp: cursor_ok_def rows_menu rows_other nf handle_timeout_def)
qed (auto simp: cursor_ok_def nf handle_timeout_def fire_defs split: option.splits)

subsection \<open>The countdown timers follow the gate\<close>

lemma timers_inv_frame [simp]:
  "timers_inv (b\<lparr>screen := scr\<rparr>) = timers_inv b"
  "timers_inv (b\<lparr>cursor := cu\<rparr>) = timers_inv b"
  "timers_inv (b\<lparr>first_visible := fv\<rparr>) = timers_inv b"
  "timers_inv (b\<lparr>help_top_line := h\<rparr>) = timers_inv b"
  "timers_inv (b\<lparr>arrow_captcha := ac\<rparr>) = timers_inv b"
  "timers_inv (b\<lparr>inverter := iv\<rparr>) = timers_inv b"
  "timers_inv (b\<lparr>hint_visible := hv\<rparr>) = timers_inv b"
  "timers_inv (b\<lparr>hint_timer := ht\<rparr>) = timers_inv b"
  "timers_inv (b\<lparr>remaining_ms := r\<rparr>) = timers_inv b"
  "timers_inv (b\<lparr>led_timer := lt\<rparr>) = timers_inv b"
  "timers_inv (b\<lparr>led_on := lo\<rparr>) = timers_inv b"
  "timers_inv (b\<lparr>hw_led := hl\<rparr>) = timers_inv b"
  by (simp_all add: timers_inv_def countdown_gate_def)

lemma timers_inv_safe: "timers_inv b \<Longrightarrow> timers_inv (enter_safe_menu b)"
  by (simp add: timers_inv_def countdown_gate_def enter_safe_menu_nf)

lemma timers_inv_powered: "timers_inv b \<Longrightarrow> timers_inv (enter_powered_menu_standby b)"
  by (simp add: timers_inv_def countdown_gate_def enter_powered_nf)

lemma timers_inv_limit_on:
  "timers_inv b \<Longrightarrow> timers_inv (start_tick_timer_if_needed (b\<lparr>limit_runtime := True\<rparr>))"
  by (simp add: timers_inv_def countdown_gate_def start_tick_nf)

lemma timers_inv_limit_off:
  "timers_inv b \<Longrightarrow> timers_inv (stop_timers (b\<lparr>limit_runtime := False\<rparr>))"
  by (simp add: timers_inv_def countdown_gate_def stop_timers_def stopped_def [symmetric])

lemma timers_inv_apply_mode:
  assumes "timers_inv b"
  shows "timers_inv (apply_mode b i)"
proof (cases "unat i < MODE_COUNT")
  case False
  with assms show ?thesis by (simp add: apply_mode_def)
next
  case True
  from assms have ty:
    "timer_typed (tick_timer b) FuriTimerTypePeriodic"
    "timer_typed (off_timer b) FuriTimerTypeOnce"
    by (simp_all add: timers_inv_def)
  from mode_cases [OF True] consider "i = 0" | "i = 1" | "i = 2" | "i = 3" by blast
  then show ?thesis
  proof cases
    case 1
    then show ?thesis
      by (simp add: apply_mode_nf MODE_COUNT_4 mode_table timers_inv_def countdown_gate_def ty)
  next
    case 2
    then show ?thesis
      by (simp add: apply_mode_nf MODE_COUNT_4 mode_table timers_inv_def countdown_gate_def ty)
  next
    case 3
    then show ?thesis
      by (simp add: apply_mode_nf MODE_COUNT_4 mode_table timers_inv_def countdown_gate_def ty)
  next
    case 4
    then show ?thesis
      by (simp add: apply_mode_nf MODE_COUNT_4 mode_table timers_inv_def countdown_gate_def ty)
  qed
qed

lemma timers_inv_input: "timers_inv b \<Longrightarrow> timers_inv (process_event c ev b)"
proof -
  assume a: "timers_inv b"
  obtain k t where ev: "ev = \<lparr>ev_key = k, ev_type = t\<rparr>" by (rule split_event)
  show ?thesis using a unfolding ev
    by (cases k; cases t; cases "screen b")
       (simp_all add: input_defs show_hint_def Let_def timers_inv_safe timers_inv_powered
          timers_inv_limit_on timers_inv_limit_off timers_inv_apply_mode)
qed

text \<open>
  When the one-shot timer fires with the invariant in force, it leaves a stopped timer,
  no remaining time and the flag.
\<close>

lemma fire_off_armed:
  assumes "timers_inv b" and "timer_armed (off_timer b)"
  shows "\<exists>t. off_timer b = Some t \<and> timer_type t = FuriTimerTypeOnce \<and>
           fire_off b =
             b\<lparr>off_timer := Some (furi_timer_stop t), remaining_ms := 0,
               timeout_expired := True\<rparr>"
proof -
  from assms(2) obtain t ms where t: "off_timer b = Some t" "timer_ms t = Some ms"
    by (auto simp: timer_armed_def split: option.splits)
  from assms(1) t have ty: "timer_type t = FuriTimerTypeOnce"
    by (simp add: timers_inv_def timer_typed_def)
  have "fire_off b =
          b\<lparr>off_timer := Some (furi_timer_stop t), remaining_ms := 0, timeout_expired := True\<rparr>"
    using t ty by (simp add: fire_off_def off_timer_cb_def timer_fired_def)
  with t ty show ?thesis by simp
qed

lemma fire_off_unarmed: "\<not> timer_armed (off_timer b) \<Longrightarrow> fire_off b = b"
  by (simp add: fire_off_def timer_armed_def split: option.splits)

lemma timers_inv_fire_off:
  assumes "timers_inv b"
  shows "timers_inv (fire_off b)"
proof (cases "timer_armed (off_timer b)")
  case False
  with assms show ?thesis by (simp add: fire_off_unarmed)
next
  case True
  from fire_off_armed [OF assms True] obtain t where
    t: "off_timer b = Some t" "timer_type t = FuriTimerTypeOnce" and
    eq: "fire_off b =
           b\<lparr>off_timer := Some (furi_timer_stop t), remaining_ms := 0, timeout_expired := True\<rparr>"
    by blast
  from assms True have g: "countdown_gate b"
    by (simp add: timers_inv_def timer_armed_delay split: if_splits)
  show ?thesis unfolding eq using assms g t
    by (simp add: timers_inv_def countdown_gate_def timer_typed_def timer_delay_def
        furi_timer_stop_def)
qed

lemma timers_inv_fire_tick:
  assumes "timers_inv b"
  shows "timers_inv (fire_tick b)"
proof (cases "tick_timer b")
  case None
  with assms show ?thesis by (simp add: fire_tick_def)
next
  case (Some t)
  from assms Some have ty: "timer_type t = FuriTimerTypePeriodic"
    by (simp add: timers_inv_def timer_typed_def)
  show ?thesis
  proof (cases "timer_ms t")
    case None
    with assms Some show ?thesis by (simp add: fire_tick_def)
  next
    case (Some ms)
    have "fire_tick b = tick_timer_cb (b\<lparr>tick_timer := Some t\<rparr>)"
      using \<open>tick_timer b = Some t\<close> Some ty by (simp add: fire_tick_def timer_fired_def)
    moreover have "timers_inv (b\<lparr>tick_timer := Some t\<rparr>)"
      using assms \<open>tick_timer b = Some t\<close> by (simp add: timers_inv_def countdown_gate_def)
    ultimately show ?thesis by (simp add: tick_timer_cb_def)
  qed
qed

lemma timers_inv_poll: "timers_inv b \<Longrightarrow> timers_inv (handle_timeout b)"
  by (simp add: timers_inv_def countdown_gate_def enter_powered_nf handle_timeout_def)

lemma timers_inv_fire_led: "timers_inv b \<Longrightarrow> timers_inv (fire_led b)"
  by (simp add: fire_led_def led_timer_cb_def led_set_def split: option.splits)

lemma timers_inv_fire_hint: "timers_inv b \<Longrightarrow> timers_inv (fire_hint b)"
  by (simp add: fire_hint_def hint_timer_cb_def split: option.splits)

lemma timers_inv_step: "timers_inv b \<Longrightarrow> timers_inv (do_step st b)"
  by (cases st)
     (simp_all add: timers_inv_input timers_inv_poll timers_inv_fire_off timers_inv_fire_tick
        timers_inv_fire_led timers_inv_fire_hint)

subsection \<open>Every run from the initial state keeps the invariant\<close>

lemma app_inv_init: "app_inv init_state"
  by (simp add: app_inv_def hw_tracked_def rail_inv_def active_ok_def cursor_ok_def
      rows_other timers_inv_def countdown_gate_def help_inv_def timer_typed_def timer_delay_def
      init_state_def initial_fields_def prim_defs MODE_COUNT_4 Let_def)

lemma app_inv_step: "app_inv b \<Longrightarrow> app_inv (do_step st b)"
  by (simp add: app_inv_def hw_tracked_step rail_inv_step active_ok_step cursor_ok_step
      timers_inv_step help_inv_step)

lemma app_inv_run_from: "app_inv b \<Longrightarrow> app_inv (run sts b)"
  by (induction sts arbitrary: b) (simp_all add: app_inv_step)

lemma app_inv_run: "app_inv (run sts init_state)"
  by (rule app_inv_run_from [OF app_inv_init])

lemma hw_tracked_run: "hw_tracked (run sts init_state)"
  using app_inv_run [of sts] by (simp add: app_inv_def)

lemma run_append: "run (xs @ ys) b = run ys (run xs b)"
  by (induction xs arbitrary: b) simp_all

text \<open>A pass of the loop body is a \<open>Poll\<close>, followed by an \<open>Input\<close> unless it exits.\<close>

lemma loop_body_steps:
  "loop_body c None b = (run [Poll] b, False)"
  "\<not> (ev_type ev = InputTypeLong \<and> ev_key ev = InputKeyBack) \<Longrightarrow>
     loop_body c (Some ev) b = (run [Poll, Input c ev] b, False)"
  "ev_type ev = InputTypeLong \<and> ev_key ev = InputKeyBack \<Longrightarrow>
     loop_body c (Some ev) b = (run [Poll] b, True)"
  by (simp_all add: loop_body_def Let_def)

subsection \<open>The example runs, evaluated\<close>

lemma low_speed_state:
  "run run_low_speed init_state =
     \<lparr>screen = ScreenMenu, inverter = InvEmbraco, powered = True, cursor = 1,
      first_visible = 0, active = 1, help_top_line = 0, limit_runtime = True,
      arrow_captcha = True, notif = True,
      led_timer = Some \<lparr>timer_type = FuriTimerTypePeriodic, timer_ms = Some 500\<rparr>,
      led_on = False, pwm_running = True, hint_visible = False, hint_timer = None,
      tick_timer = Some \<lparr>timer_type = FuriTimerTypePeriodic, timer_ms = Some 1000\<rparr>,
      off_timer = Some \<lparr>timer_type = FuriTimerTypeOnce, timer_ms = Some 120000\<rparr>,
      remaining_ms = 120000, timeout_expired = False, hw_pin = PinPwmOut,
      hw_pwm = PwmRunning 55 50, hw_otg = False, hw_led = False,
      hal_log =
        [GpioInit GpioModeInput GpioPullNo GpioSpeedLow, OtgDisable,
         GpioInit GpioModeInput GpioPullNo GpioSpeedLow, OtgDisable,
         GpioInit GpioModeOutputPushPull GpioPullNo GpioSpeedVeryHigh,
         GpioWrite False, PwmStart 55 50]\<rparr>"
  by (simp add: run_low_speed_def eval_defs)

lemma samsung_menu_state:
  "run run_samsung_menu init_state =
     \<lparr>screen = ScreenMenu, inverter = InvSamsung, powered = False, cursor = 0,
      first_visible = 0, active = 0, help_top_line = 0, limit_runtime = True,
      arrow_captcha = True, notif = True, led_timer = None, led_on = False,
      pwm_running = False, hint_visible = False, hint_timer = None,
      tick_timer = None, off_timer = None, remaining_ms = 0,
      timeout_expired = False, hw_pin = PinHiZ, hw_pwm = PwmIdle,
      hw_otg = False, hw_led = False,
      hal_log =
        [GpioInit GpioModeInput GpioPullNo GpioSpeedLow, OtgDisable,
         GpioInit GpioModeInput GpioPullNo GpioSpeedLow, OtgDisable]\<rparr>"
  by (simp add: run_samsung_menu_def eval_defs)

lemma samsung_low_speed_state:
  "run run_samsung_low_speed init_state =
     \<lparr>screen = ScreenMenu, inverter = InvSamsung, powered = True, cursor = 1,
      first_visible = 0, active = 1, help_top_line = 0, limit_runtime = True,
      arrow_captcha = True, notif = True,
      led_timer = Some \<lparr>timer_type = FuriTimerTypePeriodic, timer_ms = Some 500\<rparr>,
      led_on = False, pwm_running = True, hint_visible = False, hint_timer = None,
      tick_timer = Some \<lparr>timer_type = FuriTimerTypePeriodic, timer_ms = Some 1000\<rparr>,
      off_timer = Some \<lparr>timer_type = FuriTimerTypeOnce, timer_ms = Some 120000\<rparr>,
      remaining_ms = 120000, timeout_expired = False, hw_pin = PinPwmOut,
      hw_pwm = PwmRunning 55 50, hw_otg = True, hw_led = False,
      hal_log =
        [GpioInit GpioModeInput GpioPullNo GpioSpeedLow, OtgDisable,
         GpioInit GpioModeInput GpioPullNo GpioSpeedLow, OtgDisable,
         OtgEnable,
         GpioInit GpioModeOutputPushPull GpioPullNo GpioSpeedVeryHigh,
         GpioWrite False, PwmStart 55 50]\<rparr>"
  by (simp add: run_samsung_low_speed_def run_append samsung_menu_state step_defs)

lemma settings_armed_state:
  "run run_settings_armed init_state =
     \<lparr>screen = ScreenSettings, inverter = InvEmbraco, powered = True, cursor = 0,
      first_visible = 0, active = 1, help_top_line = 0, limit_runtime = True,
      arrow_captcha = True, notif = True,
      led_timer = Some \<lparr>timer_type = FuriTimerTypePeriodic, timer_ms = Some 500\<rparr>,
      led_on = False, pwm_running = True, hint_visible = False, hint_timer = None,
      tick_timer = Some \<lparr>timer_type = FuriTimerTypePeriodic, timer_ms = Some 1000\<rparr>,
      off_timer = Some \<lparr>timer_type = FuriTimerTypeOnce, timer_ms = Some 120000\<rparr>,
      remaining_ms = 120000, timeout_expired = False, hw_pin = PinPwmOut,
      hw_pwm = PwmRunning 55 50, hw_otg = False, hw_led = False,
      hal_log =
        [GpioInit GpioModeInput GpioPullNo GpioSpeedLow, OtgDisable,
         GpioInit GpioModeInput GpioPullNo GpioSpeedLow, OtgDisable,
         GpioInit GpioModeOutputPushPull GpioPullNo GpioSpeedVeryHigh,
         GpioWrite False, PwmStart 55 50]\<rparr>"
  by (simp add: run_settings_armed_def run_append low_speed_state step_defs)

lemma expired_state:
  "run run_expired init_state =
     \<lparr>screen = ScreenMenu, inverter = InvEmbraco, powered = True, cursor = 1,
      first_visible = 0, active = 1, help_top_line = 0, limit_runtime = True,
      arrow_captcha = True, notif = True,
      led_timer = Some \<lparr>timer_type = FuriTimerTypePeriodic, timer_ms = Some 500\<rparr>,
      led_on = False, pwm_running = True, hint_visible = False, hint_timer = None,
      tick_timer = Some \<lparr>timer_type = FuriTimerTypePeriodic, timer_ms = Some 1000\<rparr>,
      off_timer = Some \<lparr>timer_type = FuriTimerTypeOnce, timer_ms = None\<rparr>,
      remaining_ms = 0, timeout_expired = True, hw_pin = PinPwmOut,
      hw_pwm = PwmRunning 55 50, hw_otg = False, hw_led = False,
      hal_log =
        [GpioInit GpioModeInput GpioPullNo GpioSpeedLow, OtgDisable,
         GpioInit GpioModeInput GpioPullNo GpioSpeedLow, OtgDisable,
         GpioInit GpioModeOutputPushPull GpioPullNo GpioSpeedVeryHigh,
         GpioWrite False, PwmStart 55 50]\<rparr>"
  by (simp add: run_expired_def run_append low_speed_state step_defs)

lemma expired_ok_state:
  "run run_expired_ok init_state =
     \<lparr>screen = ScreenMenu, inverter = InvEmbraco, powered = True, cursor = 1,
      first_visible = 0, active = 1, help_top_line = 0, limit_runtime = True,
      arrow_captcha = True, notif = True,
      led_timer = Some \<lparr>timer_type = FuriTimerTypePeriodic, timer_ms = Some 500\<rparr>,
      led_on = False, pwm_running = True, hint_visible = False, hint_timer = None,
      tick_timer = Some \<lparr>timer_type = FuriTimerTypePeriodic, timer_ms = Some 1000\<rparr>,
      off_timer = Some \<lparr>timer_type = FuriTimerTypeOnce, timer_ms = Some 120000\<rparr>,
      remaining_ms = 120000, timeout_expired = False, hw_pin = PinPwmOut,
      hw_pwm = PwmRunning 55 50, hw_otg = False, hw_led = False,
      hal_log =
        [GpioInit GpioModeInput GpioPullNo GpioSpeedLow, OtgDisable,
         GpioInit GpioModeInput GpioPullNo GpioSpeedLow, OtgDisable,
         GpioInit GpioModeOutputPushPull GpioPullNo GpioSpeedVeryHigh,
         GpioWrite False, PwmStart 55 50, PwmStop, DelayMs 1, PwmStart 55 50]\<rparr>"
  by (simp add: run_expired_ok_def run_append expired_state step_defs)

lemma help_scrolled_state:
  "run run_help_scrolled init_state =
     \<lparr>screen = ScreenHelp, inverter = InvEmbraco, powered = False, cursor = 2,
      first_visible = 0, active = 0, help_top_line = 1, limit_runtime = True,
      arrow_captcha = True, notif = True, led_timer = None, led_on = False,
      pwm_running = False, hint_visible = False, hint_timer = None,
      tick_timer = None, off_timer = None, remaining_ms = 0,
      timeout_expired = False, hw_pin = PinHiZ, hw_pwm = PwmIdle,
      hw_otg = False, hw_led = False,
      hal_log =
        [GpioInit GpioModeInput GpioPullNo GpioSpeedLow, OtgDisable,
         GpioInit GpioModeInput GpioPullNo GpioSpeedLow, OtgDisable]\<rparr>"
  by (simp add: run_help_scrolled_def eval_defs)

lemma help_then_samsung_state:
  "run run_help_then_samsung init_state =
     \<lparr>screen = ScreenMenu, inverter = InvSamsung, powered = False, cursor = 0,
      first_visible = 0, active = 0, help_top_line = 1, limit_runtime = True,
      arrow_captcha = True, notif = True, led_timer = None, led_on = False,
      pwm_running = False, hint_visible = False, hint_timer = None,
      tick_timer = None, off_timer = None, remaining_ms = 0,
      timeout_expired = False, hw_pin = PinHiZ, hw_pwm = PwmIdle,
      hw_otg = False, hw_led = False,
      hal_log =
        [GpioInit GpioModeInput GpioPullNo GpioSpeedLow, OtgDisable,
         GpioInit GpioModeInput GpioPullNo GpioSpeedLow, OtgDisable,
         GpioInit GpioModeInput GpioPullNo GpioSpeedLow, OtgDisable]\<rparr>"
  by (simp add: run_help_then_samsung_def run_append help_scrolled_state step_defs)

lemma standby_state:
  "run run_standby init_state =
     \<lparr>screen = ScreenMenu, inverter = InvEmbraco, powered = True, cursor = 1,
      first_visible = 0, active = 0, help_top_line = 0, limit_runtime = True,
      arrow_captcha = True, notif = True, led_timer = None, led_on = False,
      pwm_running = False, hint_visible = False, hint_timer = None,
      tick_timer = None, off_timer = None, remaining_ms = 0,
      timeout_expired = False, hw_pin = PinPushPullLow, hw_pwm = PwmIdle,
      hw_otg = False, hw_led = False,
      hal_log =
        [GpioInit GpioModeInput GpioPullNo GpioSpeedLow, OtgDisable,
         GpioInit GpioModeInput GpioPullNo GpioSpeedLow, OtgDisable,
         GpioInit GpioModeOutputPushPull GpioPullNo GpioSpeedVeryHigh,
         GpioWrite False]\<rparr>"
  by (simp add: run_standby_def eval_defs)

lemma settings_limit_off_state:
  "run run_settings_limit_off init_state =
     \<lparr>screen = ScreenSettings, inverter = InvEmbraco, powered = True, cursor = 0,
      first_visible = 0, active = 1, help_top_line = 0, limit_runtime = False,
      arrow_captcha = True, notif = True,
      led_timer = Some \<lparr>timer_type = FuriTimerTypePeriodic, timer_ms = Some 500\<rparr>,
      led_on = False, pwm_running = True, hint_visible = False, hint_timer = None,
      tick_timer = Some \<lparr>timer_type = FuriTimerTypePeriodic, timer_ms = None\<rparr>,
      off_timer = Some \<lparr>timer_type = FuriTimerTypeOnce, timer_ms = None\<rparr>,
      remaining_ms = 0, timeout_expired = False, hw_pin = PinPwmOut,
      hw_pwm = PwmRunning 55 50, hw_otg = False, hw_led = False,
      hal_log =
        [GpioInit GpioModeInput GpioPullNo GpioSpeedLow, OtgDisable,
         GpioInit GpioModeInput GpioPullNo GpioSpeedLow, OtgDisable,
         GpioInit GpioModeOutputPushPull GpioPullNo GpioSpeedVeryHigh,
         GpioWrite False, PwmStart 55 50]\<rparr>"
  by (simp add: run_settings_limit_off_def run_append settings_armed_state step_defs)

section \<open>The claims\<close>

subsection \<open>C1: what \<open>apply_mode\<close> leaves behind\<close>

text \<open>
  C1. For every mode index \<open>m\<close> below \<open>MODE_COUNT\<close> (that is, below 4), applied in a
  state whose flag \<open>pwm_running\<close> tells the truth about the PWM unit, as it does in every
  state a run reaches (\<open>hw_tracked_run\<close>): the mode becomes the active one. If its
  frequency is 0, the PWM unit is idle afterwards, the pin is driven low in push-pull
  mode, neither countdown timer runs, \<open>remaining_ms\<close> is 0 and \<open>timeout_expired\<close> is
  false. Otherwise the calls issued to the PWM unit are a stop (if a signal was running)
  followed by a start at the frequency of the mode with 50 percent duty, the unit then
  runs at exactly that frequency, and the pin is not driven low.
\<close>

theorem apply_mode_effect:
  assumes "unat m < MODE_COUNT" and "hw_tracked b"
  shows "active (apply_mode b m) = m \<and>
    (freq_hz (kModes ! unat m) = 0 \<longrightarrow>
       hw_pwm (apply_mode b m) = PwmIdle \<and> \<not> pwm_running (apply_mode b m) \<and>
       hw_pin (apply_mode b m) = PinPushPullLow \<and>
       \<not> timer_armed (tick_timer (apply_mode b m)) \<and>
       \<not> timer_armed (off_timer (apply_mode b m)) \<and>
       remaining_ms (apply_mode b m) = 0 \<and> \<not> timeout_expired (apply_mode b m)) \<and>
    (freq_hz (kModes ! unat m) \<noteq> 0 \<longrightarrow>
       hal_log (apply_mode b m) =
         hal_log b @ (if hw_pwm b \<noteq> PwmIdle then [PwmStop, DelayMs 1] else []) @
         [PwmStart (freq_hz (kModes ! unat m)) 50] \<and>
       hw_pwm (apply_mode b m) = PwmRunning (freq_hz (kModes ! unat m)) 50 \<and>
       pwm_running (apply_mode b m) \<and>
       hw_pin (apply_mode b m) \<noteq> PinPushPullLow)"
  using assms by (auto simp: apply_mode_nf hw_tracked_def timer_armed_delay)

text \<open>
  With ``Low speed'' running at 55 Hz, mode 3 restarts the signal at 160 Hz and mode 0
  stops it and drives the pin low.
\<close>

theorem apply_mode_effect_witness:
  "unat (3::u8) < MODE_COUNT \<and> unat (0::u8) < MODE_COUNT \<and>
   hw_tracked (run run_low_speed init_state) \<and>
   hw_pwm (apply_mode (run run_low_speed init_state) 3) = PwmRunning 160 50 \<and>
   hw_pin (apply_mode (run run_low_speed init_state) 3) \<noteq> PinPushPullLow \<and>
   hw_pwm (apply_mode (run run_low_speed init_state) 0) = PwmIdle \<and>
   hw_pin (apply_mode (run run_low_speed init_state) 0) = PinPushPullLow \<and>
   remaining_ms (apply_mode (run run_low_speed init_state) 0) = 0"
proof -
  have h3: "unat (3::u8) < MODE_COUNT" and h0: "unat (0::u8) < MODE_COUNT"
    by (simp_all add: MODE_COUNT_4)
  have ht: "hw_tracked (run run_low_speed init_state)"
    by (simp add: low_speed_state hw_tracked_def)
  from apply_mode_effect [OF h3 ht] apply_mode_effect [OF h0 ht] h3 h0 ht
  show ?thesis by (simp add: mode_table)
qed

subsection \<open>C2: when the countdown timers run\<close>

text \<open>
  C2, as stated: with ``Low speed'' running and its countdown armed, the one-shot timer
  fires while the loop waits for the next event. Until the loop has consumed the flag,
  the gate still holds (powered, limit enabled, mode 1, 120 s) and the tick timer still
  runs, but the expiry timer does not.
\<close>

theorem countdown_armed_iff_gate_counterexample:
  "countdown_gate (run run_expired init_state) \<and>
   timer_armed (tick_timer (run run_expired init_state)) \<and>
   \<not> timer_armed (off_timer (run run_expired init_state)) \<and>
   \<not> (timer_armed (tick_timer (run run_expired init_state)) \<and>
      timer_armed (off_timer (run run_expired init_state))
      \<longleftrightarrow> countdown_gate (run run_expired init_state))"
  by (simp add: expired_state countdown_gate_def timer_armed_def mode_table)

lemma secs_no_wrap:
  "unat i < MODE_COUNT \<Longrightarrow>
   unat (default_secs (kModes ! unat (i::u8)) * 1000) = unat (default_secs (kModes ! unat i)) * 1000"
proof -
  assume "unat i < MODE_COUNT"
  from mode_cases [OF this] show ?thesis by (auto simp: mode_table)
qed

lemma start_tick_arms:
  assumes "countdown_gate s"
  shows "remaining_ms (start_tick_timer_if_needed s) =
      default_secs (kModes ! unat (active s)) * 1000"
    and "timer_delay (tick_timer (start_tick_timer_if_needed s)) = Some 1000"
    and "timer_delay (off_timer (start_tick_timer_if_needed s)) =
      Some (remaining_ms (start_tick_timer_if_needed s))"
    and "\<not> timeout_expired (start_tick_timer_if_needed s)"
    and "timer_typed (tick_timer s) FuriTimerTypePeriodic \<Longrightarrow>
      tick_timer (start_tick_timer_if_needed s) =
        Some \<lparr>timer_type = FuriTimerTypePeriodic, timer_ms = Some 1000\<rparr>"
    and "timer_typed (off_timer s) FuriTimerTypeOnce \<Longrightarrow>
      off_timer (start_tick_timer_if_needed s) =
        Some \<lparr>timer_type = FuriTimerTypeOnce,
              timer_ms = Some (remaining_ms (start_tick_timer_if_needed s))\<rparr>"
    and "tick_timer s = None \<Longrightarrow>
      tick_timer (start_tick_timer_if_needed s) =
        Some \<lparr>timer_type = FuriTimerTypePeriodic, timer_ms = Some 1000\<rparr>"
    and "off_timer s = None \<Longrightarrow>
      off_timer (start_tick_timer_if_needed s) =
        Some \<lparr>timer_type = FuriTimerTypeOnce,
              timer_ms = Some (remaining_ms (start_tick_timer_if_needed s))\<rparr>"
  using assms by (simp_all add: start_tick_nf restarted_typed)

lemma start_tick_idle:
  assumes "\<not> countdown_gate s"
  shows "remaining_ms (start_tick_timer_if_needed s) = 0"
    and "\<not> timer_armed (tick_timer (start_tick_timer_if_needed s))"
    and "\<not> timer_armed (off_timer (start_tick_timer_if_needed s))"
  using assms by (simp_all add: start_tick_nf timer_armed_delay)

lemma apply_mode_arms:
  assumes ty: "timer_typed (tick_timer b) FuriTimerTypePeriodic"
    "timer_typed (off_timer b) FuriTimerTypeOnce"
    and m: "unat m < MODE_COUNT" "m \<noteq> 0"
    and g: "powered b" "limit_runtime b"
  shows "remaining_ms (apply_mode b m) = default_secs (kModes ! unat m) * 1000 \<and>
    default_secs (kModes ! unat m) \<noteq> 0 \<and>
    tick_timer (apply_mode b m) =
      Some \<lparr>timer_type = FuriTimerTypePeriodic, timer_ms = Some 1000\<rparr> \<and>
    off_timer (apply_mode b m) =
      Some \<lparr>timer_type = FuriTimerTypeOnce, timer_ms = Some (remaining_ms (apply_mode b m))\<rparr>"
proof -
  from mode_cases [OF m(1)] m(2) consider "m = 1" | "m = 2" | "m = 3" by blast
  then show ?thesis
  proof cases
    case 1
    then show ?thesis using g ty
      by (simp add: apply_mode_nf MODE_COUNT_4 mode_table countdown_gate_def restarted_typed)
  next
    case 2
    then show ?thesis using g ty
      by (simp add: apply_mode_nf MODE_COUNT_4 mode_table countdown_gate_def restarted_typed)
  next
    case 3
    then show ?thesis using g ty
      by (simp add: apply_mode_nf MODE_COUNT_4 mode_table countdown_gate_def restarted_typed)
  qed
qed


lemma limit_on_arms:
  assumes inv: "timers_inv b" "active_ok b"
    and h: "screen b = ScreenSettings" "cursor b = 0" "\<not> limit_runtime b" "powered b"
      "active b \<noteq> 0"
  shows "limit_runtime (process_event c (short InputKeyOk) b) \<and>
    remaining_ms (process_event c (short InputKeyOk) b) =
      default_secs (kModes ! unat (active b)) * 1000 \<and>
    default_secs (kModes ! unat (active b)) \<noteq> 0 \<and>
    tick_timer (process_event c (short InputKeyOk) b) =
      Some \<lparr>timer_type = FuriTimerTypePeriodic, timer_ms = Some 1000\<rparr> \<and>
    off_timer (process_event c (short InputKeyOk) b) =
      Some \<lparr>timer_type = FuriTimerTypeOnce,
            timer_ms = Some (remaining_ms (process_event c (short InputKeyOk) b))\<rparr>"
proof -
  from inv(1) have ty: "timer_typed (tick_timer b) FuriTimerTypePeriodic"
    "timer_typed (off_timer b) FuriTimerTypeOnce"
    by (simp_all add: timers_inv_def)
  have eq: "process_event c (short InputKeyOk) b =
      start_tick_timer_if_needed (b\<lparr>limit_runtime := True\<rparr>)"
    using h by (simp add: input_defs)
  from mode_cases [OF inv(2) [unfolded active_ok_def]] h(5)
  have secs: "default_secs (kModes ! unat (active b)) \<noteq> 0"
    by (auto simp: mode_table)
  with h have g: "countdown_gate (b\<lparr>limit_runtime := True\<rparr>)"
    by (simp add: countdown_gate_def)
  show ?thesis unfolding eq using g secs ty
    by (simp add: start_tick_nf restarted_typed)
qed

text \<open>
  C2, amended. In every state \<open>b\<close> a run reaches: the tick timer runs if and only if the
  gate holds (\<open>powered\<close>, \<open>limit_runtime\<close>, \<open>active\<close> not 0, \<open>default_secs\<close> of the active
  mode not 0), and the expiry timer runs if and only if the gate holds and no expiry is
  pending (\<open>timeout_expired\<close> is false). A running tick timer is periodic with 1000 ms,
  a running expiry timer is a one-shot with the seconds of the active mode times 1000,
  a product that does not wrap in 32 bits.

  Arming: in any state \<open>s\<close> whatever, reached by a run or not, with the timers stopped,
  running or not yet allocated, \<open>start_tick_timer_if_needed\<close> sets \<open>remaining_ms\<close> to the
  seconds times 1000, starts the tick timer with 1000 ms and the expiry timer with
  \<open>remaining_ms\<close> when the gate holds (a periodic and a one-shot timer, given that the
  timers already allocated have these types), and leaves both stopped and \<open>remaining_ms\<close>
  0 when it does not. At its two call sites, from a reached state \<open>b\<close>: \<open>apply_mode\<close>
  with a mode other than 0, powered and with the limit on, arms the countdown of that
  mode in this way; and the OK that switches the limit on in the settings, powered and
  with a mode other than 0 active, arms the countdown of the active mode.
\<close>

theorem countdown_follows_gate:
  assumes "b = run sts init_state"
  shows "(timer_armed (tick_timer b) \<longleftrightarrow> countdown_gate b) \<and>
    (timer_armed (off_timer b) \<longleftrightarrow> countdown_gate b \<and> \<not> timeout_expired b) \<and>
    (timer_armed (tick_timer b) \<longrightarrow>
       tick_timer b = Some \<lparr>timer_type = FuriTimerTypePeriodic, timer_ms = Some 1000\<rparr>) \<and>
    (timer_armed (off_timer b) \<longrightarrow>
       off_timer b =
         Some \<lparr>timer_type = FuriTimerTypeOnce,
               timer_ms = Some (default_secs (kModes ! unat (active b)) * 1000)\<rparr>) \<and>
    (countdown_gate b \<longrightarrow>
       remaining_ms (start_tick_timer_if_needed b) =
         default_secs (kModes ! unat (active b)) * 1000 \<and>
       tick_timer (start_tick_timer_if_needed b) =
         Some \<lparr>timer_type = FuriTimerTypePeriodic, timer_ms = Some 1000\<rparr> \<and>
       off_timer (start_tick_timer_if_needed b) =
         Some \<lparr>timer_type = FuriTimerTypeOnce,
               timer_ms = Some (remaining_ms (start_tick_timer_if_needed b))\<rparr>) \<and>
    (\<not> countdown_gate b \<longrightarrow>
       \<not> timer_armed (tick_timer (start_tick_timer_if_needed b)) \<and>
       \<not> timer_armed (off_timer (start_tick_timer_if_needed b)) \<and>
       remaining_ms (start_tick_timer_if_needed b) = 0) \<and>
    unat (default_secs (kModes ! unat (active b)) * 1000) =
      unat (default_secs (kModes ! unat (active b))) * 1000 \<and>
    (countdown_gate s \<longrightarrow>
       remaining_ms (start_tick_timer_if_needed s) =
         default_secs (kModes ! unat (active s)) * 1000 \<and>
       timer_delay (tick_timer (start_tick_timer_if_needed s)) = Some 1000 \<and>
       timer_delay (off_timer (start_tick_timer_if_needed s)) =
         Some (remaining_ms (start_tick_timer_if_needed s)) \<and>
       (timer_typed (tick_timer s) FuriTimerTypePeriodic \<longrightarrow>
          tick_timer (start_tick_timer_if_needed s) =
            Some \<lparr>timer_type = FuriTimerTypePeriodic, timer_ms = Some 1000\<rparr>) \<and>
       (timer_typed (off_timer s) FuriTimerTypeOnce \<longrightarrow>
          off_timer (start_tick_timer_if_needed s) =
            Some \<lparr>timer_type = FuriTimerTypeOnce,
                  timer_ms = Some (remaining_ms (start_tick_timer_if_needed s))\<rparr>)) \<and>
    (\<not> countdown_gate s \<longrightarrow>
       \<not> timer_armed (tick_timer (start_tick_timer_if_needed s)) \<and>
       \<not> timer_armed (off_timer (start_tick_timer_if_needed s)) \<and>
       remaining_ms (start_tick_timer_if_needed s) = 0) \<and>
    (powered b \<and> limit_runtime b \<and> unat m < MODE_COUNT \<and> m \<noteq> 0 \<longrightarrow>
       remaining_ms (apply_mode b m) = default_secs (kModes ! unat m) * 1000 \<and>
       default_secs (kModes ! unat m) \<noteq> 0 \<and>
       tick_timer (apply_mode b m) =
         Some \<lparr>timer_type = FuriTimerTypePeriodic, timer_ms = Some 1000\<rparr> \<and>
       off_timer (apply_mode b m) =
         Some \<lparr>timer_type = FuriTimerTypeOnce,
               timer_ms = Some (remaining_ms (apply_mode b m))\<rparr>) \<and>
    (screen b = ScreenSettings \<and> cursor b = 0 \<and> \<not> limit_runtime b \<and> powered b \<and>
     active b \<noteq> 0 \<longrightarrow>
       limit_runtime (process_event c (short InputKeyOk) b) \<and>
       remaining_ms (process_event c (short InputKeyOk) b) =
         default_secs (kModes ! unat (active b)) * 1000 \<and>
       default_secs (kModes ! unat (active b)) \<noteq> 0 \<and>
       tick_timer (process_event c (short InputKeyOk) b) =
         Some \<lparr>timer_type = FuriTimerTypePeriodic, timer_ms = Some 1000\<rparr> \<and>
       off_timer (process_event c (short InputKeyOk) b) =
         Some \<lparr>timer_type = FuriTimerTypeOnce,
               timer_ms = Some (remaining_ms (process_event c (short InputKeyOk) b))\<rparr>)"
proof -
  from assms have "app_inv b" by (simp add: app_inv_run)
  then have ti: "timers_inv b" and ao: "active_ok b" by (simp_all add: app_inv_def)
  then have ty: "timer_typed (tick_timer b) FuriTimerTypePeriodic"
    "timer_typed (off_timer b) FuriTimerTypeOnce"
    by (simp_all add: timers_inv_def)
  have 1: "timer_armed (tick_timer b) \<longleftrightarrow> countdown_gate b"
    using ti by (simp add: timers_inv_def timer_armed_delay)
  have 2: "timer_armed (off_timer b) \<longleftrightarrow> countdown_gate b \<and> \<not> timeout_expired b"
    using ti by (simp add: timers_inv_def timer_armed_delay)
  have 3: "timer_armed (tick_timer b) \<longrightarrow>
       tick_timer b = Some \<lparr>timer_type = FuriTimerTypePeriodic, timer_ms = Some 1000\<rparr>"
    using ti
    by (auto simp: timers_inv_def timer_armed_def timer_typed_def timer_delay_def
        split: option.splits if_splits)
  have 4: "timer_armed (off_timer b) \<longrightarrow>
       off_timer b =
         Some \<lparr>timer_type = FuriTimerTypeOnce,
               timer_ms = Some (default_secs (kModes ! unat (active b)) * 1000)\<rparr>"
    using ti
    by (auto simp: timers_inv_def timer_armed_def timer_typed_def timer_delay_def
        split: option.splits if_splits)
  have 5: "countdown_gate b \<longrightarrow>
       remaining_ms (start_tick_timer_if_needed b) =
         default_secs (kModes ! unat (active b)) * 1000 \<and>
       tick_timer (start_tick_timer_if_needed b) =
         Some \<lparr>timer_type = FuriTimerTypePeriodic, timer_ms = Some 1000\<rparr> \<and>
       off_timer (start_tick_timer_if_needed b) =
         Some \<lparr>timer_type = FuriTimerTypeOnce,
               timer_ms = Some (remaining_ms (start_tick_timer_if_needed b))\<rparr>"
    by (simp add: start_tick_nf restarted_typed ty)
  have 6: "\<not> countdown_gate b \<longrightarrow>
       \<not> timer_armed (tick_timer (start_tick_timer_if_needed b)) \<and>
       \<not> timer_armed (off_timer (start_tick_timer_if_needed b)) \<and>
       remaining_ms (start_tick_timer_if_needed b) = 0"
    by (simp add: start_tick_nf timer_armed_delay)
  note 7 = secs_no_wrap [OF ao [unfolded active_ok_def]]
  have 8: "countdown_gate s \<longrightarrow>
       remaining_ms (start_tick_timer_if_needed s) =
         default_secs (kModes ! unat (active s)) * 1000 \<and>
       timer_delay (tick_timer (start_tick_timer_if_needed s)) = Some 1000 \<and>
       timer_delay (off_timer (start_tick_timer_if_needed s)) =
         Some (remaining_ms (start_tick_timer_if_needed s)) \<and>
       (timer_typed (tick_timer s) FuriTimerTypePeriodic \<longrightarrow>
          tick_timer (start_tick_timer_if_needed s) =
            Some \<lparr>timer_type = FuriTimerTypePeriodic, timer_ms = Some 1000\<rparr>) \<and>
       (timer_typed (off_timer s) FuriTimerTypeOnce \<longrightarrow>
          off_timer (start_tick_timer_if_needed s) =
            Some \<lparr>timer_type = FuriTimerTypeOnce,
                  timer_ms = Some (remaining_ms (start_tick_timer_if_needed s))\<rparr>)"
    by (simp add: start_tick_arms)
  have 9: "\<not> countdown_gate s \<longrightarrow>
       \<not> timer_armed (tick_timer (start_tick_timer_if_needed s)) \<and>
       \<not> timer_armed (off_timer (start_tick_timer_if_needed s)) \<and>
       remaining_ms (start_tick_timer_if_needed s) = 0"
    by (simp add: start_tick_idle)
  have 10: "powered b \<and> limit_runtime b \<and> unat m < MODE_COUNT \<and> m \<noteq> 0 \<longrightarrow>
       remaining_ms (apply_mode b m) = default_secs (kModes ! unat m) * 1000 \<and>
       default_secs (kModes ! unat m) \<noteq> 0 \<and>
       tick_timer (apply_mode b m) =
         Some \<lparr>timer_type = FuriTimerTypePeriodic, timer_ms = Some 1000\<rparr> \<and>
       off_timer (apply_mode b m) =
         Some \<lparr>timer_type = FuriTimerTypeOnce,
               timer_ms = Some (remaining_ms (apply_mode b m))\<rparr>"
    using apply_mode_arms [OF ty, of m] by blast
  have 11: "screen b = ScreenSettings \<and> cursor b = 0 \<and> \<not> limit_runtime b \<and> powered b \<and>
     active b \<noteq> 0 \<longrightarrow>
       limit_runtime (process_event c (short InputKeyOk) b) \<and>
       remaining_ms (process_event c (short InputKeyOk) b) =
         default_secs (kModes ! unat (active b)) * 1000 \<and>
       default_secs (kModes ! unat (active b)) \<noteq> 0 \<and>
       tick_timer (process_event c (short InputKeyOk) b) =
         Some \<lparr>timer_type = FuriTimerTypePeriodic, timer_ms = Some 1000\<rparr> \<and>
       off_timer (process_event c (short InputKeyOk) b) =
         Some \<lparr>timer_type = FuriTimerTypeOnce,
               timer_ms = Some (remaining_ms (process_event c (short InputKeyOk) b))\<rparr>"
    using limit_on_arms [OF ti ao, of c] by blast
  show ?thesis
    by (intro conjI) (rule 1 2 3 4 5 6 7 8 9 10 11)+
qed

text \<open>
  With ``Low speed'' running both timers run, the one-shot with 120000 ms. From Stand-by,
  where neither timer exists, \<open>apply_mode\<close> with mode 1 arms 120000 ms, and the state in
  which \<open>apply_mode\<close> with mode 3 calls \<open>start_tick_timer_if_needed\<close> arms 30000 ms. With
  the limit switched off and both timers stopped, switching it on again arms 120000 ms.
\<close>

theorem countdown_follows_gate_witness:
  "countdown_gate (run run_low_speed init_state) \<and>
   \<not> timeout_expired (run run_low_speed init_state) \<and>
   timer_armed (tick_timer (run run_low_speed init_state)) \<and>
   timer_armed (off_timer (run run_low_speed init_state)) \<and>
   off_timer (run run_low_speed init_state) =
     Some \<lparr>timer_type = FuriTimerTypeOnce, timer_ms = Some 120000\<rparr> \<and>
   remaining_ms (start_tick_timer_if_needed (run run_low_speed init_state)) = 120000 \<and>
   \<not> timer_armed (tick_timer (run run_standby init_state)) \<and>
   \<not> timer_armed (off_timer (run run_standby init_state)) \<and>
   remaining_ms (run run_standby init_state) = 0 \<and>
   remaining_ms (apply_mode (run run_standby init_state) 1) = 120000 \<and>
   tick_timer (apply_mode (run run_standby init_state) 1) =
     Some \<lparr>timer_type = FuriTimerTypePeriodic, timer_ms = Some 1000\<rparr> \<and>
   off_timer (apply_mode (run run_standby init_state) 1) =
     Some \<lparr>timer_type = FuriTimerTypeOnce, timer_ms = Some 120000\<rparr> \<and>
   countdown_gate ((run run_standby init_state)\<lparr>active := 3\<rparr>) \<and>
   remaining_ms (start_tick_timer_if_needed ((run run_standby init_state)\<lparr>active := 3\<rparr>)) =
     30000 \<and>
   off_timer (start_tick_timer_if_needed ((run run_standby init_state)\<lparr>active := 3\<rparr>)) =
     Some \<lparr>timer_type = FuriTimerTypeOnce, timer_ms = Some 30000\<rparr> \<and>
   \<not> timer_armed (off_timer (run run_settings_limit_off init_state)) \<and>
   remaining_ms (run run_settings_limit_off init_state) = 0 \<and>
   remaining_ms
     (process_event False (short InputKeyOk) (run run_settings_limit_off init_state)) = 120000 \<and>
   off_timer
     (process_event False (short InputKeyOk) (run run_settings_limit_off init_state)) =
     Some \<lparr>timer_type = FuriTimerTypeOnce, timer_ms = Some 120000\<rparr>"
proof -
  let ?b = "run run_low_speed init_state"
  let ?i = "run run_standby init_state"
  let ?s = "?i\<lparr>active := 3\<rparr>"
  let ?o = "run run_settings_limit_off init_state"
  have g: "countdown_gate ?b" and e: "\<not> timeout_expired ?b"
    and a: "active ?b = 1"
    by (simp_all add: low_speed_state countdown_gate_def mode_table)
  note t = countdown_follows_gate [OF refl, where sts = run_low_speed and s = ?s and m = 1
      and c = False]
  from t g have 1: "timer_armed (tick_timer ?b)" by blast
  from t g e have 2: "timer_armed (off_timer ?b)" by blast
  from t 2 have 3: "off_timer ?b =
      Some \<lparr>timer_type = FuriTimerTypeOnce,
            timer_ms = Some (default_secs (kModes ! unat (active ?b)) * 1000)\<rparr>" by blast
  from t g have 4: "remaining_ms (start_tick_timer_if_needed ?b) =
      default_secs (kModes ! unat (active ?b)) * 1000" by blast
  have i: "\<not> timer_armed (tick_timer ?i)" "\<not> timer_armed (off_timer ?i)"
    "remaining_ms ?i = 0" "powered ?i" "limit_runtime ?i"
    by (simp_all add: standby_state timer_armed_def)
  have m: "unat (1::u8) < MODE_COUNT" "(1::u8) \<noteq> 0" by (simp_all add: MODE_COUNT_4)
  note u = countdown_follows_gate [OF refl, where sts = run_standby and s = ?s and m = 1
      and c = False]
  from u i m have 5: "remaining_ms (apply_mode ?i 1) = default_secs (kModes ! unat (1::u8)) * 1000 \<and>
       tick_timer (apply_mode ?i 1) =
         Some \<lparr>timer_type = FuriTimerTypePeriodic, timer_ms = Some 1000\<rparr> \<and>
       off_timer (apply_mode ?i 1) =
         Some \<lparr>timer_type = FuriTimerTypeOnce, timer_ms = Some (remaining_ms (apply_mode ?i 1))\<rparr>"
    by blast
  have sg: "countdown_gate ?s" and sty: "timer_typed (off_timer ?s) FuriTimerTypeOnce"
    and sa: "active ?s = 3"
    by (simp_all add: standby_state countdown_gate_def mode_table timer_typed_def)
  from u sg sty have 6: "remaining_ms (start_tick_timer_if_needed ?s) =
         default_secs (kModes ! unat (active ?s)) * 1000 \<and>
       off_timer (start_tick_timer_if_needed ?s) =
            Some \<lparr>timer_type = FuriTimerTypeOnce,
                  timer_ms = Some (remaining_ms (start_tick_timer_if_needed ?s))\<rparr>"
    by blast
  have o: "\<not> timer_armed (off_timer ?o)" "remaining_ms ?o = 0" "screen ?o = ScreenSettings"
    "cursor ?o = 0" "\<not> limit_runtime ?o" "powered ?o" "active ?o \<noteq> 0" "active ?o = 1"
    by (simp_all add: settings_limit_off_state timer_armed_def)
  note v = countdown_follows_gate [OF refl, where sts = run_settings_limit_off and s = ?s
      and m = 1 and c = False]
  from v o have 7: "remaining_ms (process_event False (short InputKeyOk) ?o) =
         default_secs (kModes ! unat (active ?o)) * 1000 \<and>
       off_timer (process_event False (short InputKeyOk) ?o) =
         Some \<lparr>timer_type = FuriTimerTypeOnce,
               timer_ms = Some (remaining_ms (process_event False (short InputKeyOk) ?o))\<rparr>"
    by blast
  from g e 1 2 3 4 i(1-3) 5 sg 6 o(1,2) 7 show ?thesis
    by (simp add: a sa o(8) mode_table)
qed

subsection \<open>C3: the safe menu\<close>

text \<open>
  C3. \<open>enter_safe_menu\<close>, called in any state whose flag \<open>pwm_running\<close> tells the truth
  about the PWM unit and whose LED is driven through the notification handle, as in every
  state a run reaches (\<open>hw_tracked_run\<close>), so at each of its call sites: afterwards
  \<open>powered\<close> is false, \<open>cursor\<close> and \<open>first_visible\<close> are 0, the PWM unit is idle, the
  pin is a high-impedance input, the 5V rail is off and was switched off by a call issued
  whatever the inverter is, the LED is off and its blink timer is gone, neither countdown
  timer runs, \<open>remaining_ms\<close> is 0 and \<open>timeout_expired\<close> is false.
\<close>

theorem enter_safe_menu_effect:
  assumes "hw_tracked b"
  shows "\<not> powered (enter_safe_menu b) \<and>
    cursor (enter_safe_menu b) = 0 \<and> first_visible (enter_safe_menu b) = 0 \<and>
    hw_pwm (enter_safe_menu b) = PwmIdle \<and> \<not> pwm_running (enter_safe_menu b) \<and>
    hw_pin (enter_safe_menu b) = PinHiZ \<and>
    \<not> hw_otg (enter_safe_menu b) \<and>
    hal_log (enter_safe_menu b) =
      hal_log b @ (if hw_pwm b \<noteq> PwmIdle then [PwmStop, DelayMs 1] else []) @
      [GpioInit GpioModeInput GpioPullNo GpioSpeedLow, OtgDisable] \<and>
    \<not> hw_led (enter_safe_menu b) \<and> \<not> led_on (enter_safe_menu b) \<and>
    led_timer (enter_safe_menu b) = None \<and>
    \<not> timer_armed (tick_timer (enter_safe_menu b)) \<and>
    \<not> timer_armed (off_timer (enter_safe_menu b)) \<and>
    remaining_ms (enter_safe_menu b) = 0 \<and> \<not> timeout_expired (enter_safe_menu b)"
  using assms by (auto simp: enter_safe_menu_nf hw_tracked_def timer_armed_delay)

text \<open>
  With Samsung powered and ``Low speed'' running (5V rail on, 55 Hz, countdown armed),
  \<open>enter_safe_menu\<close> switches all of it off.
\<close>

theorem enter_safe_menu_effect_witness:
  "hw_tracked (run run_samsung_low_speed init_state) \<and>
   hw_otg (run run_samsung_low_speed init_state) \<and>
   hw_pwm (run run_samsung_low_speed init_state) = PwmRunning 55 50 \<and>
   timer_armed (off_timer (run run_samsung_low_speed init_state)) \<and>
   \<not> hw_otg (enter_safe_menu (run run_samsung_low_speed init_state)) \<and>
   hw_pwm (enter_safe_menu (run run_samsung_low_speed init_state)) = PwmIdle \<and>
   hw_pin (enter_safe_menu (run run_samsung_low_speed init_state)) = PinHiZ \<and>
   \<not> timer_armed (off_timer (enter_safe_menu (run run_samsung_low_speed init_state)))"
proof -
  have ht: "hw_tracked (run run_samsung_low_speed init_state)"
    by (simp add: samsung_low_speed_state hw_tracked_def)
  have before:
    "hw_otg (run run_samsung_low_speed init_state)"
    "hw_pwm (run run_samsung_low_speed init_state) = PwmRunning 55 50"
    "timer_armed (off_timer (run run_samsung_low_speed init_state))"
    by (simp_all add: samsung_low_speed_state timer_armed_def)
  from enter_safe_menu_effect [OF ht] ht before show ?thesis by simp
qed

subsection \<open>C4: power on\<close>

text \<open>
  C4. In any state a run reaches that shows the safe menu with the cursor on ``Power
  on'', an OK whose dialog is confirmed leaves: \<open>powered\<close> true, \<open>cursor\<close> and
  \<open>first_visible\<close> 0, mode 0 active, the pin driven low, the PWM unit idle, and the 5V
  rail on if and only if the inverter is Samsung (it stays off for Embraco).
\<close>

theorem power_on_confirmed:
  assumes "b = run sts init_state"
    and "screen b = ScreenMenu" and "\<not> powered b" and "cursor b = 0"
    and "b' = process_event True (short InputKeyOk) b"
  shows "powered b' \<and> cursor b' = 0 \<and> first_visible b' = 0 \<and> active b' = 0 \<and>
    hw_pin b' = PinPushPullLow \<and> hw_pwm b' = PwmIdle \<and> \<not> pwm_running b' \<and>
    (hw_otg b' \<longleftrightarrow> inverter b = InvSamsung) \<and>
    inverter b' = inverter b \<and> screen b' = ScreenMenu"
proof -
  from assms(1) have "app_inv b" by (simp add: app_inv_run)
  then have "hw_tracked b" and "rail_inv b" by (simp_all add: app_inv_def)
  moreover have "b' = enter_powered_menu_standby b"
    using assms(2-5) by (simp add: input_defs Let_def)
  ultimately show ?thesis
    using assms(2,3) by (auto simp: enter_powered_nf hw_tracked_def rail_inv_def)
qed

text \<open>After Samsung was chosen, the confirmed power on switches the 5V rail on.\<close>

theorem power_on_confirmed_witness:
  "screen (run run_samsung_menu init_state) = ScreenMenu \<and>
   \<not> powered (run run_samsung_menu init_state) \<and>
   cursor (run run_samsung_menu init_state) = 0 \<and>
   inverter (run run_samsung_menu init_state) = InvSamsung \<and>
   powered (process_event True (short InputKeyOk) (run run_samsung_menu init_state)) \<and>
   active (process_event True (short InputKeyOk) (run run_samsung_menu init_state)) = 0 \<and>
   hw_otg (process_event True (short InputKeyOk) (run run_samsung_menu init_state)) \<and>
   hw_pin (process_event True (short InputKeyOk) (run run_samsung_menu init_state)) =
     PinPushPullLow"
proof -
  have h:
    "screen (run run_samsung_menu init_state) = ScreenMenu"
    "\<not> powered (run run_samsung_menu init_state)"
    "cursor (run run_samsung_menu init_state) = 0"
    and iv: "inverter (run run_samsung_menu init_state) = InvSamsung"
    by (simp_all add: samsung_menu_state)
  from power_on_confirmed [OF refl h refl] h iv show ?thesis by simp
qed

subsection \<open>C5: the expiry\<close>

text \<open>
  C5, as stated: with ``Low speed'' running, the one-shot timer fires while the loop
  waits, and an OK on the same row arrives before the loop looks at the flag again.
  \<open>apply_mode\<close> restarts the signal and the countdown and clears the flag; the next look
  at the flag finds nothing. This firing is never handled: mode 1 stays active at 55 Hz.
\<close>

theorem expiry_not_handled_counterexample:
  "timer_armed (off_timer (run run_low_speed init_state)) \<and>
   run run_expired init_state = fire_off (run run_low_speed init_state) \<and>
   timeout_expired (run run_expired init_state) \<and>
   run run_expired_ok init_state =
     process_event False (short InputKeyOk) (run run_expired init_state) \<and>
   \<not> timeout_expired (run run_expired_ok init_state) \<and>
   handle_timeout (run run_expired_ok init_state) = run run_expired_ok init_state \<and>
   active (run run_expired_ok init_state) = 1 \<and>
   hw_pwm (run run_expired_ok init_state) = PwmRunning 55 50"
proof -
  have a: "timer_armed (off_timer (run run_low_speed init_state))"
    by (simp add: low_speed_state timer_armed_def)
  have p: "handle_timeout (run run_low_speed init_state) = run run_low_speed init_state"
    by (simp add: low_speed_state handle_timeout_def)
  have e: "run run_expired init_state = fire_off (run run_low_speed init_state)"
    by (simp add: run_expired_def run_append p)
  have x: "timeout_expired (run run_expired init_state)"
    by (simp add: expired_state)
  have k: "run run_expired_ok init_state =
      process_event False (short InputKeyOk) (run run_expired init_state)"
    by (simp add: run_expired_ok_def run_append)
  have n: "\<not> timeout_expired (run run_expired_ok init_state)"
    and ac: "active (run run_expired_ok init_state) = 1"
    and pw: "hw_pwm (run run_expired_ok init_state) = PwmRunning 55 50"
    by (simp_all add: expired_ok_state)
  have h: "handle_timeout (run run_expired_ok init_state) = run run_expired_ok init_state"
    using n by (simp add: handle_timeout_def)
  show ?thesis by (intro conjI) (rule a e x k n h ac pw)+
qed

text \<open>
  C5, amended. In every state a run reaches: a running expiry timer is a one-shot started
  with the seconds of the active mode times 1000; when it fires, its callback sets
  \<open>remaining_ms\<close> to 0 and \<open>timeout_expired\<close>, and the timer no longer runs, so it cannot
  fire again before it is restarted. Whenever the loop finds \<open>timeout_expired\<close> set, it
  clears the flag and calls \<open>enter_powered_menu_standby\<close>: the state is then powered with
  mode 0, the PWM unit idle, the pin driven low and both countdown timers stopped, and a
  second look at the flag changes nothing, so a firing is handled at most once. (A
  firing whose flag an input event clears first is not handled.)
\<close>

theorem expiry_handling:
  assumes "b = run sts init_state"
  shows "(timer_armed (off_timer b) \<longrightarrow>
       off_timer b =
         Some \<lparr>timer_type = FuriTimerTypeOnce,
               timer_ms = Some (default_secs (kModes ! unat (active b)) * 1000)\<rparr> \<and>
       remaining_ms (fire_off b) = 0 \<and> timeout_expired (fire_off b) \<and>
       \<not> timer_armed (off_timer (fire_off b)) \<and>
       fire_off (fire_off b) = fire_off b) \<and>
    (\<not> timer_armed (off_timer b) \<longrightarrow> fire_off b = b) \<and>
    (timeout_expired b \<longrightarrow>
       handle_timeout b = enter_powered_menu_standby (b\<lparr>timeout_expired := False\<rparr>) \<and>
       \<not> timeout_expired (handle_timeout b) \<and>
       powered (handle_timeout b) \<and> active (handle_timeout b) = 0 \<and>
       hw_pwm (handle_timeout b) = PwmIdle \<and> hw_pin (handle_timeout b) = PinPushPullLow \<and>
       \<not> timer_armed (tick_timer (handle_timeout b)) \<and>
       \<not> timer_armed (off_timer (handle_timeout b)) \<and>
       handle_timeout (handle_timeout b) = handle_timeout b) \<and>
    (\<not> timeout_expired b \<longrightarrow> handle_timeout b = b)"
proof -
  from assms have inv: "app_inv b" by (simp add: app_inv_run)
  then have ti: "timers_inv b" and ht: "hw_tracked b" by (simp_all add: app_inv_def)
  have 1: "timer_armed (off_timer b) \<longrightarrow>
       off_timer b =
         Some \<lparr>timer_type = FuriTimerTypeOnce,
               timer_ms = Some (default_secs (kModes ! unat (active b)) * 1000)\<rparr> \<and>
       remaining_ms (fire_off b) = 0 \<and> timeout_expired (fire_off b) \<and>
       \<not> timer_armed (off_timer (fire_off b)) \<and>
       fire_off (fire_off b) = fire_off b"
  proof
    assume a: "timer_armed (off_timer b)"
    from fire_off_armed [OF ti a] obtain t where
      t: "off_timer b = Some t" "timer_type t = FuriTimerTypeOnce" and
      eq: "fire_off b =
           b\<lparr>off_timer := Some (furi_timer_stop t), remaining_ms := 0, timeout_expired := True\<rparr>"
      by blast
    have na: "\<not> timer_armed (off_timer (fire_off b))"
      unfolding eq by (simp add: timer_armed_def furi_timer_stop_def)
    have "off_timer b =
         Some \<lparr>timer_type = FuriTimerTypeOnce,
               timer_ms = Some (default_secs (kModes ! unat (active b)) * 1000)\<rparr>"
      using ti a
      by (auto simp: timers_inv_def timer_armed_def timer_typed_def timer_delay_def
          split: option.splits if_splits)
    moreover have "remaining_ms (fire_off b) = 0 \<and> timeout_expired (fire_off b)"
      unfolding eq by simp
    moreover note na fire_off_unarmed [OF na]
    ultimately show "off_timer b =
         Some \<lparr>timer_type = FuriTimerTypeOnce,
               timer_ms = Some (default_secs (kModes ! unat (active b)) * 1000)\<rparr> \<and>
       remaining_ms (fire_off b) = 0 \<and> timeout_expired (fire_off b) \<and>
       \<not> timer_armed (off_timer (fire_off b)) \<and>
       fire_off (fire_off b) = fire_off b" by simp
  qed
  have 2: "\<not> timer_armed (off_timer b) \<longrightarrow> fire_off b = b"
    by (simp add: fire_off_unarmed)
  have 3: "timeout_expired b \<longrightarrow>
       handle_timeout b = enter_powered_menu_standby (b\<lparr>timeout_expired := False\<rparr>) \<and>
       \<not> timeout_expired (handle_timeout b) \<and>
       powered (handle_timeout b) \<and> active (handle_timeout b) = 0 \<and>
       hw_pwm (handle_timeout b) = PwmIdle \<and> hw_pin (handle_timeout b) = PinPushPullLow \<and>
       \<not> timer_armed (tick_timer (handle_timeout b)) \<and>
       \<not> timer_armed (off_timer (handle_timeout b)) \<and>
       handle_timeout (handle_timeout b) = handle_timeout b"
    using ht by (auto simp: handle_timeout_def enter_powered_nf hw_tracked_def timer_armed_delay)
  have 4: "\<not> timeout_expired b \<longrightarrow> handle_timeout b = b"
    by (simp add: handle_timeout_def)
  from 1 2 3 4 show ?thesis by blast
qed

text \<open>
  The countdown of ``Low speed'' fires, and the loop then falls back to mode 0.
\<close>

theorem expiry_handling_witness:
  "timer_armed (off_timer (run run_low_speed init_state)) \<and>
   off_timer (run run_low_speed init_state) =
     Some \<lparr>timer_type = FuriTimerTypeOnce, timer_ms = Some 120000\<rparr> \<and>
   timeout_expired (fire_off (run run_low_speed init_state)) \<and>
   \<not> timer_armed (off_timer (fire_off (run run_low_speed init_state))) \<and>
   timeout_expired (run run_expired init_state) \<and>
   \<not> timeout_expired (handle_timeout (run run_expired init_state)) \<and>
   powered (handle_timeout (run run_expired init_state)) \<and>
   active (handle_timeout (run run_expired init_state)) = 0 \<and>
   hw_pwm (handle_timeout (run run_expired init_state)) = PwmIdle"
proof -
  let ?b = "run run_low_speed init_state" and ?e = "run run_expired init_state"
  have a: "timer_armed (off_timer ?b)" and o: "off_timer ?b =
     Some \<lparr>timer_type = FuriTimerTypeOnce, timer_ms = Some 120000\<rparr>"
    by (simp_all add: low_speed_state timer_armed_def)
  have x: "timeout_expired ?e" by (simp add: expired_state)
  from expiry_handling [OF refl, of run_low_speed] a
  have 1: "timeout_expired (fire_off ?b) \<and> \<not> timer_armed (off_timer (fire_off ?b))"
    by blast
  from expiry_handling [OF refl, of run_expired] x
  have 2: "\<not> timeout_expired (handle_timeout ?e) \<and> powered (handle_timeout ?e) \<and>
      active (handle_timeout ?e) = 0 \<and> hw_pwm (handle_timeout ?e) = PwmIdle"
    by blast
  from a o x 1 2 show ?thesis by simp
qed

subsection \<open>C6: switching the runtime limit off\<close>

text \<open>
  C6. In the settings with the cursor on ``Limit run time'' and the limit enabled (in
  particular while a countdown is armed), an OK whose dialog is confirmed changes exactly
  this: \<open>limit_runtime\<close> becomes false, both countdown timers are stopped, and
  \<open>remaining_ms\<close> becomes 0; the expiry timer can no longer fire. If the dialog is
  declined, the state is unchanged.
\<close>

theorem limit_off_dialog:
  assumes "screen b = ScreenSettings" and "cursor b = 0" and "limit_runtime b"
  shows "process_event True (short InputKeyOk) b =
      b\<lparr>limit_runtime := False, tick_timer := stopped (tick_timer b),
        off_timer := stopped (off_timer b), remaining_ms := 0\<rparr> \<and>
    \<not> limit_runtime (process_event True (short InputKeyOk) b) \<and>
    \<not> timer_armed (tick_timer (process_event True (short InputKeyOk) b)) \<and>
    \<not> timer_armed (off_timer (process_event True (short InputKeyOk) b)) \<and>
    remaining_ms (process_event True (short InputKeyOk) b) = 0 \<and>
    fire_off (process_event True (short InputKeyOk) b) =
      process_event True (short InputKeyOk) b \<and>
    process_event False (short InputKeyOk) b = b"
proof -
  have eq: "process_event True (short InputKeyOk) b =
      b\<lparr>limit_runtime := False, tick_timer := stopped (tick_timer b),
        off_timer := stopped (off_timer b), remaining_ms := 0\<rparr>"
    using assms by (simp add: input_defs stop_timers_def stopped_def)
  have no: "process_event False (short InputKeyOk) b = b"
    using assms by (simp add: input_defs)
  show ?thesis unfolding eq no
    by (simp add: timer_armed_delay fire_off_unarmed)
qed

text \<open>The settings opened while the countdown of ``Low speed'' is armed.\<close>

theorem limit_off_dialog_witness:
  "screen (run run_settings_armed init_state) = ScreenSettings \<and>
   cursor (run run_settings_armed init_state) = 0 \<and>
   limit_runtime (run run_settings_armed init_state) \<and>
   timer_armed (tick_timer (run run_settings_armed init_state)) \<and>
   timer_armed (off_timer (run run_settings_armed init_state)) \<and>
   \<not> limit_runtime (process_event True (short InputKeyOk) (run run_settings_armed init_state)) \<and>
   \<not> timer_armed
       (off_timer (process_event True (short InputKeyOk) (run run_settings_armed init_state))) \<and>
   remaining_ms (process_event True (short InputKeyOk) (run run_settings_armed init_state)) = 0 \<and>
   process_event False (short InputKeyOk) (run run_settings_armed init_state) =
     run run_settings_armed init_state"
proof -
  have h:
    "screen (run run_settings_armed init_state) = ScreenSettings"
    "cursor (run run_settings_armed init_state) = 0"
    "limit_runtime (run run_settings_armed init_state)"
    and armed:
    "timer_armed (tick_timer (run run_settings_armed init_state))"
    "timer_armed (off_timer (run run_settings_armed init_state))"
    by (simp_all add: settings_armed_state timer_armed_def)
  from limit_off_dialog [OF h] h armed show ?thesis by (simp add: timer_armed_delay)
qed

subsection \<open>C7: moving the cursor\<close>





subsection \<open>C8: the blink timer\<close>

lemma led_period_unat: "hz \<noteq> 0 \<Longrightarrow> unat (led_period_ms hz) = max 1 (500 div unat hz)"
proof -
  assume nz: "hz \<noteq> 0"
  have lt: "unat hz < 256" using unsigned_less [of hz, where 'a = nat] by simp
  have pos: "0 < unat hz" using nz by (simp add: unat_gt_0)
  have u: "unat (ucast hz :: u32) = unat hz"
    using lt by (simp add: unsigned_ucast_eq take_bit_nat_eq_self)
  have d: "unat (ucast hz * 2 :: u32) = 2 * unat hz"
    using lt by (simp add: unat_word_ariths u)
  have q: "unat (1000 div (ucast hz * 2) :: u32) = 500 div unat hz"
    by (simp add: unat_div d)
  have ge: "1 \<le> 500 div unat hz"
    using lt pos by (simp add: Suc_le_eq div_greater_zero_iff)
  have "(1000 div (ucast hz * 2) :: u32) \<noteq> 0"
    using q ge by (metis not_one_le_zero unat_0)
  then show ?thesis using q ge by (simp add: led_period_ms_def Let_def)
qed

lemma led_period_exact:
  assumes "hz \<noteq> 0"
  shows "2 * unat (led_period_ms hz) * unat hz \<le> 1000"
    and "unat hz dvd 500 \<Longrightarrow> 2 * unat (led_period_ms hz) * unat hz = 1000"
proof -
  have lt: "unat hz < 256" using unsigned_less [of hz, where 'a = nat] by simp
  have pos: "0 < unat hz" using assms by (simp add: unat_gt_0)
  have ge: "1 \<le> 500 div unat hz"
    using lt pos by (simp add: Suc_le_eq div_greater_zero_iff)
  have p: "unat (led_period_ms hz) = 500 div unat hz"
    using led_period_unat [OF assms] ge by simp
  have "500 div unat hz * unat hz \<le> 500" by (rule div_times_less_eq_dividend)
  then show "2 * unat (led_period_ms hz) * unat hz \<le> 1000"
    unfolding p by (simp add: mult.commute)
  assume "unat hz dvd 500"
  then have "500 div unat hz * unat hz = 500" by (rule dvd_div_mult_self)
  then show "2 * unat (led_period_ms hz) * unat hz = 1000"
    unfolding p by (simp add: mult.commute)
qed

text \<open>
  C8, as stated, at rate 3: the period is \<open>1000 / (3 * 2) = 166\<close> ms, so one on-off
  cycle of two periods lasts 332 ms and three cycles last 996 ms, not one second. The
  blink frequency is not 3 Hz.
\<close>

theorem blink_frequency_counterexample:
  "led_timer (led_apply init_state 3) =
     Some \<lparr>timer_type = FuriTimerTypePeriodic, timer_ms = Some 166\<rparr> \<and>
   unat (led_period_ms 3) = 166 \<and>
   2 * unat (led_period_ms 3) * unat (3::u8) \<noteq> 1000"
  by (simp add: led_apply_def led_set_def Let_def furi_timer_alloc_def furi_timer_start_def
      led_period_ms_def)

text \<open>
  C8, amended. \<open>led_apply\<close> with rate \<open>hz\<close>: the LED state is off afterwards (and the
  LED itself, given the notification handle). With rate 0 no blink timer is left. With a
  rate above 0 the blink timer is a new periodic timer, whatever the old one was, started
  with the period \<open>led_period_ms hz\<close>, which is \<open>500 div hz\<close> milliseconds in integer
  division and at least 1. \<open>hz\<close> on-off cycles then last at most one second, and exactly
  one second (blink frequency \<open>hz\<close>) when \<open>hz\<close> divides 500, as the rates 1, 2 and 4 of
  the mode table do.
\<close>

theorem led_apply_effect:
  "\<not> led_on (led_apply b hz) \<and>
   (notif b \<longrightarrow> \<not> hw_led (led_apply b hz)) \<and>
   (hz = 0 \<longrightarrow> led_timer (led_apply b hz) = None) \<and>
   (hz \<noteq> 0 \<longrightarrow>
      led_timer (led_apply b hz) =
        Some \<lparr>timer_type = FuriTimerTypePeriodic, timer_ms = Some (led_period_ms hz)\<rparr> \<and>
      unat (led_period_ms hz) = max 1 (500 div unat hz) \<and>
      2 * unat (led_period_ms hz) * unat hz \<le> 1000 \<and>
      (unat hz dvd 500 \<longrightarrow> 2 * unat (led_period_ms hz) * unat hz = 1000))"
proof -
  have 1: "\<not> led_on (led_apply b hz) \<and> (notif b \<longrightarrow> \<not> hw_led (led_apply b hz)) \<and>
      (hz = 0 \<longrightarrow> led_timer (led_apply b hz) = None) \<and>
      (hz \<noteq> 0 \<longrightarrow>
         led_timer (led_apply b hz) =
           Some \<lparr>timer_type = FuriTimerTypePeriodic, timer_ms = Some (led_period_ms hz)\<rparr>)"
    by (simp add: led_apply_def led_set_def Let_def furi_timer_alloc_def furi_timer_start_def)
  show ?thesis
  proof (cases "hz = 0")
    case True
    with 1 show ?thesis by simp
  next
    case False
    note led_period_unat [OF False] led_period_exact [OF False]
    with 1 False show ?thesis by (intro conjI impI) (simp_all only:, simp_all)
  qed
qed

text \<open>
  While ``Low speed'' blinks with 500 ms, rate 0 removes the timer and rate 4 installs one
  of 125 ms, which is 4 Hz.
\<close>

theorem led_apply_effect_witness:
  "notif (run run_low_speed init_state) \<and>
   led_timer (run run_low_speed init_state) =
     Some \<lparr>timer_type = FuriTimerTypePeriodic, timer_ms = Some 500\<rparr> \<and>
   led_timer (led_apply (run run_low_speed init_state) 0) = None \<and>
   \<not> hw_led (led_apply (run run_low_speed init_state) 0) \<and>
   led_timer (led_apply (run run_low_speed init_state) 4) =
     Some \<lparr>timer_type = FuriTimerTypePeriodic, timer_ms = Some 125\<rparr> \<and>
   unat (led_period_ms 4) = 125 \<and>
   2 * unat (led_period_ms 4) * unat (4::u8) = 1000"
proof -
  have n: "notif (run run_low_speed init_state)"
    and t: "led_timer (run run_low_speed init_state) =
      Some \<lparr>timer_type = FuriTimerTypePeriodic, timer_ms = Some 500\<rparr>"
    by (simp_all add: low_speed_state)
  have p: "led_period_ms 4 = 125" by (simp add: led_period_ms_def)
  from led_apply_effect [of "run run_low_speed init_state" 0]
    led_apply_effect [of "run run_low_speed init_state" 4] n t
  show ?thesis by (simp add: p)
qed

subsection \<open>C9: a short BACK\<close>

text \<open>
  C9. On every screen a short BACK changes at most \<open>screen\<close>, \<open>cursor\<close>,
  \<open>first_visible\<close>, \<open>hint_visible\<close> and \<open>hint_timer\<close>: resetting these five fields gives
  the old state back. In particular \<open>powered\<close>, \<open>active\<close>, the PWM flag and unit, the pin,
  the 5V rail and the calls issued are as before. On the inverter selection and the menu
  it shows the hint, started for 1500 ms, and stays on the screen; on the help it goes to
  the menu; on the settings it goes to the menu and resets the cursor.
\<close>

theorem short_back_frame:
  "(process_event c (short InputKeyBack) b)
      \<lparr>screen := screen b, cursor := cursor b, first_visible := first_visible b,
       hint_visible := hint_visible b, hint_timer := hint_timer b\<rparr> = b \<and>
   powered (process_event c (short InputKeyBack) b) = powered b \<and>
   active (process_event c (short InputKeyBack) b) = active b \<and>
   pwm_running (process_event c (short InputKeyBack) b) = pwm_running b \<and>
   hw_pwm (process_event c (short InputKeyBack) b) = hw_pwm b \<and>
   hw_pin (process_event c (short InputKeyBack) b) = hw_pin b \<and>
   hw_otg (process_event c (short InputKeyBack) b) = hw_otg b \<and>
   hal_log (process_event c (short InputKeyBack) b) = hal_log b \<and>
   (screen b = ScreenSelectInverter \<or> screen b = ScreenMenu \<longrightarrow>
      process_event c (short InputKeyBack) b = show_hint b \<and>
      hint_visible (process_event c (short InputKeyBack) b) \<and>
      timer_delay (hint_timer (process_event c (short InputKeyBack) b)) = Some 1500 \<and>
      screen (process_event c (short InputKeyBack) b) = screen b \<and>
      cursor (process_event c (short InputKeyBack) b) = cursor b \<and>
      first_visible (process_event c (short InputKeyBack) b) = first_visible b) \<and>
   (screen b = ScreenHelp \<longrightarrow>
      process_event c (short InputKeyBack) b = b\<lparr>screen := ScreenMenu\<rparr>) \<and>
   (screen b = ScreenSettings \<longrightarrow>
      process_event c (short InputKeyBack) b =
        b\<lparr>screen := ScreenMenu, cursor := 0, first_visible := 0\<rparr>)"
  by (cases "screen b")
     (simp_all add: input_defs show_hint_def Let_def timer_delay_def furi_timer_start_def)

text \<open>
  In the powered menu the hint is shown and the signal keeps running; from the settings
  the menu is shown and the power stays on.
\<close>

theorem short_back_frame_witness:
  "screen (run run_low_speed init_state) = ScreenMenu \<and>
   hint_visible (process_event False (short InputKeyBack) (run run_low_speed init_state)) \<and>
   screen (process_event False (short InputKeyBack) (run run_low_speed init_state)) = ScreenMenu \<and>
   hw_pwm (process_event False (short InputKeyBack) (run run_low_speed init_state)) =
     PwmRunning 55 50 \<and>
   screen (run run_settings_armed init_state) = ScreenSettings \<and>
   screen (process_event False (short InputKeyBack) (run run_settings_armed init_state)) =
     ScreenMenu \<and>
   powered (process_event False (short InputKeyBack) (run run_settings_armed init_state))"
proof -
  let ?m = "run run_low_speed init_state" and ?s = "run run_settings_armed init_state"
  have m: "screen ?m = ScreenMenu" and p: "hw_pwm ?m = PwmRunning 55 50"
    by (simp_all add: low_speed_state)
  have s: "screen ?s = ScreenSettings" and q: "powered ?s"
    by (simp_all add: settings_armed_state)
  have "hint_visible (process_event False (short InputKeyBack) ?m) \<and>
      screen (process_event False (short InputKeyBack) ?m) = screen ?m \<and>
      hw_pwm (process_event False (short InputKeyBack) ?m) = hw_pwm ?m"
    using short_back_frame [where c = False and b = ?m] m by blast
  moreover have "screen (process_event False (short InputKeyBack) ?s) = ScreenMenu \<and>
      powered (process_event False (short InputKeyBack) ?s) = powered ?s"
    using short_back_frame [where c = False and b = ?s] s by simp
  ultimately show ?thesis using m p s q by simp
qed

subsection \<open>C10: the help offset\<close>

text \<open>
  C10, as stated: the offset is not always within the bound of the current inverter.
  After the help of Embraco was scrolled down one line and Samsung was then selected in
  the settings, the offset is still 1, while the largest offset of the one-line Samsung
  help is 0.
\<close>

theorem help_offset_stale_counterexample:
  "inverter (run run_help_then_samsung init_state) = InvSamsung \<and>
   help_top_line (run run_help_then_samsung init_state) = 1 \<and>
   help_max_top_line InvSamsung = 0 \<and>
   \<not> help_top_line (run run_help_then_samsung init_state)
       \<le> help_max_top_line (inverter (run run_help_then_samsung init_state))"
  by (simp add: help_then_samsung_state help_max_top_line_values)

lemma help_entry_resets:
  "screen b \<noteq> ScreenHelp \<Longrightarrow> screen (process_event c ev b) = ScreenHelp \<Longrightarrow>
   help_top_line (process_event c ev b) = 0"
proof -
  assume a: "screen b \<noteq> ScreenHelp" "screen (process_event c ev b) = ScreenHelp"
  obtain k t where ev: "ev = \<lparr>ev_key = k, ev_type = t\<rparr>" by (rule split_event)
  show ?thesis using a unfolding ev
    by (cases k; cases t; cases "screen b")
       (auto simp: input_defs nf show_hint_def stop_timers_def Let_def MODE_COUNT_4
          split: if_splits)
qed

text \<open>
  C10, amended. In every state a run reaches, while the help screen is shown the offset
  is at most the largest top line of the help of the current inverter, which is \<open>max 0\<close>
  of the number of lines minus the lines that fit. Every event that enters the help
  screen sets the offset to 0; on the help screen a short or repeated UP decrements it
  only when it is above 0 and a short or repeated DOWN increments it only when it is
  strictly below that largest top line.
\<close>

theorem help_offset_bounded:
  assumes "b = run sts init_state"
  shows "(screen b = ScreenHelp \<longrightarrow> help_top_line b \<le> help_max_top_line (inverter b)) \<and>
    int (unat (help_max_top_line (inverter b))) =
      max 0 (int (if inverter b = InvEmbraco then length HELP_EMBRACO else length HELP_SAMSUNG)
             - int ((CANVAS_H - 10) div 9)) \<and>
    (screen b \<noteq> ScreenHelp \<and> screen (process_event c ev b) = ScreenHelp \<longrightarrow>
       help_top_line (process_event c ev b) = 0) \<and>
    (screen b = ScreenHelp \<and> (ev_type ev = InputTypeShort \<or> ev_type ev = InputTypeRepeat) \<and>
     ev_key ev = InputKeyUp \<longrightarrow>
       help_top_line (process_event c ev b) =
         (if 0 < help_top_line b then help_top_line b - 1 else help_top_line b)) \<and>
    (screen b = ScreenHelp \<and> (ev_type ev = InputTypeShort \<or> ev_type ev = InputTypeRepeat) \<and>
     ev_key ev = InputKeyDown \<longrightarrow>
       help_top_line (process_event c ev b) =
         (if help_top_line b < help_max_top_line (inverter b) then help_top_line b + 1
          else help_top_line b))"
proof -
  from assms have "app_inv b" by (simp add: app_inv_run)
  then have 1: "screen b = ScreenHelp \<longrightarrow> help_top_line b \<le> help_max_top_line (inverter b)"
    by (simp add: app_inv_def help_inv_def)
  have 2: "int (unat (help_max_top_line (inverter b))) =
      max 0 (int (if inverter b = InvEmbraco then length HELP_EMBRACO else length HELP_SAMSUNG)
             - int ((CANVAS_H - 10) div 9))"
    by (cases "inverter b")
       (simp_all add: help_max_top_line_values help_counts [unfolded HELP_EMBRACO_COUNT_def
          HELP_SAMSUNG_COUNT_def] CANVAS_H_def)
  have 3: "screen b = ScreenHelp \<and> (ev_type ev = InputTypeShort \<or> ev_type ev = InputTypeRepeat) \<and>
     ev_key ev = InputKeyUp \<longrightarrow>
       help_top_line (process_event c ev b) =
         (if 0 < help_top_line b then help_top_line b - 1 else help_top_line b)"
    by (auto simp: input_defs Let_def)
  have 4: "screen b = ScreenHelp \<and> (ev_type ev = InputTypeShort \<or> ev_type ev = InputTypeRepeat) \<and>
     ev_key ev = InputKeyDown \<longrightarrow>
       help_top_line (process_event c ev b) =
         (if help_top_line b < help_max_top_line (inverter b) then help_top_line b + 1
          else help_top_line b)"
    by (auto simp: input_defs Let_def help_max_top_line_def)
  from 1 2 3 4 help_entry_resets [of b c ev] show ?thesis by blast
qed

text \<open>The help of Embraco, scrolled down one line: UP gives offset 0, DOWN offset 2.\<close>

theorem help_offset_bounded_witness:
  "screen (run run_help_scrolled init_state) = ScreenHelp \<and>
   help_top_line (run run_help_scrolled init_state) = 1 \<and>
   help_max_top_line (inverter (run run_help_scrolled init_state)) = 32 \<and>
   help_top_line (run run_help_scrolled init_state)
     \<le> help_max_top_line (inverter (run run_help_scrolled init_state)) \<and>
   help_top_line (process_event False (short InputKeyUp) (run run_help_scrolled init_state)) = 0 \<and>
   help_top_line (process_event False (short InputKeyDown) (run run_help_scrolled init_state)) = 2"
proof -
  let ?b = "run run_help_scrolled init_state"
  have s: "screen ?b = ScreenHelp" and h: "help_top_line ?b = 1"
    and m: "help_max_top_line (inverter ?b) = 32"
    by (simp_all add: help_scrolled_state help_max_top_line_values)
  have le: "help_top_line ?b \<le> help_max_top_line (inverter ?b)"
    using help_offset_bounded [OF refl, of run_help_scrolled] s by blast
  have up: "help_top_line (process_event False (short InputKeyUp) ?b) =
      (if 0 < help_top_line ?b then help_top_line ?b - 1 else help_top_line ?b)"
    using help_offset_bounded [OF refl, where sts = run_help_scrolled and c = False
        and ev = "short InputKeyUp"] s by simp
  have down: "help_top_line (process_event False (short InputKeyDown) ?b) =
      (if help_top_line ?b < help_max_top_line (inverter ?b) then help_top_line ?b + 1
       else help_top_line ?b)"
    using help_offset_bounded [OF refl, where sts = run_help_scrolled and c = False
        and ev = "short InputKeyDown"] s by simp
  from s h m le up down show ?thesis by simp
qed

end
